theory Spec2Isabelle
  imports Complex_Main
begin

section \<open>Smoothie: fixed-step logic with interpolated rendering\<close>

text \<open>
  A shallow embedding of \<^verbatim>\<open>src/vendor/smoothie.ts\<close>.

  Conventions of the embedding.
  \<^item> A JavaScript \<^verbatim>\<open>number\<close> is a \<^typ>\<open>real\<close>: arithmetic is exact, there is no
    \<^verbatim>\<open>NaN\<close> and no infinity. The source computes in double precision; a statement
    below that depends on the arithmetic either holds whatever the rounding or names
    the numbers (whole milliseconds of bounded size) on which doubles are exact, and
    \<open>fl\<close> models the rounding where a statement is about it.
  \<^item> A slot that the source tests against \<^verbatim>\<open>undefined\<close> is an \<^typ>\<open>'a option\<close>.
  \<^item> A private field \<^verbatim>\<open>_name\<close> of the source is written \<open>u_name\<close>, since an
    identifier cannot start with an underscore.
  \<^item> The calls that leave the class (the host's \<^verbatim>\<open>requestAnimationFrame\<close>, the
    user's \<^verbatim>\<open>update\<close> callback, the backend's \<^verbatim>\<open>renderer.render\<close>) are appended
    to a trace, so that their number and order can be stated.
  \<^item> \<^verbatim>\<open>Date.now()\<close> and the notification timestamp are arguments.
\<close>

subsection \<open>Scene nodes\<close>

text \<open>
  A display object carries its attributes and its children. The type \<^verbatim>\<open>ExtendedSprite\<close>
  adds the shadow slots to the live attributes of a Pixi sprite. The \<^verbatim>\<open>_previous\<close>
  slots are compared with \<^verbatim>\<open>undefined\<close> by \<^verbatim>\<open>render\<close>, so they are options; the
  \<^verbatim>\<open>_current\<close> slots are declared \<^verbatim>\<open>number\<close> and are read without a test.
  \<^verbatim>\<open>instanceofSprite\<close> is the outcome of \<^verbatim>\<open>sprite instanceof this.Sprite\<close>.

  Position, rotation, scale and opacity are slots of the node. The size is not: on a
  \<^verbatim>\<open>PIXI.Sprite\<close> the accessors \<^verbatim>\<open>width\<close> and \<^verbatim>\<open>height\<close> read and write the scale,
  relative to the size of the texture (\<open>texture_width\<close>, \<open>texture_height\<close>). On any other
  display object the size is what Pixi computes from the bounds of the children; the
  source only reads it there, into a slot that no walk reads back, and the model keeps
  it as the slots \<open>sprite_width\<close> and \<open>sprite_height\<close>.
\<close>

datatype 'a displayObject =
  DisplayObject (attrs: 'a) (children: "'a displayObject list")

record attributes =
  sprite_x :: real
  sprite_y :: real
  sprite_rotation :: real
  sprite_width :: real
  sprite_height :: real
  scale_x :: real
  scale_y :: real
  sprite_alpha :: real
  instanceofSprite :: bool
  texture_width :: real
  texture_height :: real
  u_currentWidth :: real
  u_currentHeight :: real
  u_previousWidth :: "real option"
  u_previousHeight :: "real option"
  u_currentX :: real
  u_currentY :: real
  u_previousX :: "real option"
  u_previousY :: "real option"
  u_currentScaleX :: real
  u_currentScaleY :: real
  u_previousScaleX :: "real option"
  u_previousScaleY :: "real option"
  u_currentRotation :: real
  u_previousRotation :: "real option"
  u_currentAlpha :: real
  u_previousAlpha :: "real option"

type_synonym sprite = "attributes displayObject"

text \<open>
  The accessors of the Pixi library, which is not among the sources:
  \<^verbatim>\<open>get width() { return Math.abs(this.scale.x) * this._texture.orig.width; }\<close> and
  \<^verbatim>\<open>set width(value) { const s = sign(this.scale.x) || 1;
  this.scale.x = s * value / this._texture.orig.width; }\<close> on a sprite, and the same
  for the height with \<^verbatim>\<open>scale.y\<close>. The source assigns a size to sprites only.
\<close>

definition get_width :: "attributes \<Rightarrow> real" where
  "get_width a =
     (if instanceofSprite a then \<bar>scale_x a\<bar> * texture_width a else sprite_width a)"

definition get_height :: "attributes \<Rightarrow> real" where
  "get_height a =
     (if instanceofSprite a then \<bar>scale_y a\<bar> * texture_height a else sprite_height a)"

definition set_width :: "real \<Rightarrow> attributes \<Rightarrow> attributes" where
  "set_width v a =
     a\<lparr> scale_x := (if scale_x a < 0 then - 1 else 1) * v / texture_width a \<rparr>"

definition set_height :: "real \<Rightarrow> attributes \<Rightarrow> attributes" where
  "set_height v a =
     a\<lparr> scale_y := (if scale_y a < 0 then - 1 else 1) * v / texture_height a \<rparr>"

text \<open>\<^verbatim>\<open>SmoothieProperties\<close>: three of the five flags are optional.\<close>

record smoothieProperties =
  position :: bool
  rotation :: bool
  size_opt :: "bool option"
  scale_opt :: "bool option"
  alpha_opt :: "bool option"

text \<open>The truth value of an optional flag in a condition: \<^verbatim>\<open>undefined\<close> is falsy.\<close>

definition truthy :: "bool option \<Rightarrow> bool" where
  "truthy b = (case b of None \<Rightarrow> False | Some v \<Rightarrow> v)"

subsection \<open>The scheduler object and its environment\<close>

datatype engine = PixiEngine

datatype renderer = PixiRenderer

datatype event =
  RequestAnimationFrame
  | Update
  | Render sprite

record 'u smoothie =
  properties :: smoothieProperties
  stage :: sprite
  renderer :: renderer
  update :: "'u \<Rightarrow> sprite \<Rightarrow> 'u \<times> sprite"
  interpolate :: bool
  paused :: bool
  u_fps :: "real option"
  u_frameDuration :: "real option"
  u_lag :: real
  u_tick :: real
  u_startTime :: real
  u_renderStartTime :: real
  u_renderFps :: "real option"
  u_renderDuration :: "real option"
  user :: 'u
  trace :: "event list"

text \<open>
  The last two fields are the environment: \<open>user\<close> is the state the update callback
  closes over, \<open>trace\<close> the calls made so far. The callback receives that state and the
  scene tree and returns both; it has no access to the scheduler's own fields.
\<close>

record 'u smoothieOptions =
  opt_engine :: "engine option"
  opt_renderer :: "renderer option"
  opt_root :: "sprite option"
  opt_update :: "('u \<Rightarrow> sprite \<Rightarrow> 'u \<times> sprite) option"
  opt_interpolate :: "bool option"
  opt_fps :: "real option"
  opt_renderFps :: "real option"
  opt_properties :: "smoothieProperties option"

datatype error =
  MissingEngine
  | MissingRenderer
  | MissingRoot
  | MissingUpdate

subsection \<open>Construction\<close>

text \<open>The default argument of the constructor, used when it is called without one.\<close>

definition defaultOptions :: "'u smoothieOptions" where
  "defaultOptions =
     \<lparr> opt_engine = None, opt_renderer = None, opt_root = None, opt_update = None,
       opt_interpolate = Some True, opt_fps = Some 60, opt_renderFps = None,
       opt_properties = Some \<lparr> position = True, rotation = True, size_opt = Some False,
                               scale_opt = Some False, alpha_opt = Some False \<rparr> \<rparr>"

text \<open>\<^verbatim>\<open>!!v ? 1000 / v : undefined\<close>: a number is truthy when it is not zero.\<close>

definition duration_of :: "real option \<Rightarrow> real option" where
  "duration_of v = (case v of None \<Rightarrow> None | Some f \<Rightarrow> if f \<noteq> 0 then Some (1000 / f) else None)"

text \<open>
  The constructor: \<open>now\<close> is \<^verbatim>\<open>Date.now()\<close>, \<open>u0\<close> the callback's initial state. Each
  \<^verbatim>\<open>throw\<close> is an \<open>Inl\<close>, in the order of the source.
\<close>

definition constructor :: "'u smoothieOptions \<Rightarrow> real \<Rightarrow> 'u \<Rightarrow> error + 'u smoothie" where
  "constructor options now u0 =
     (case opt_engine options of None \<Rightarrow> Inl MissingEngine
      | Some eng \<Rightarrow>
     (case opt_renderer options of None \<Rightarrow> Inl MissingRenderer
      | Some rnd \<Rightarrow>
     (case opt_root options of None \<Rightarrow> Inl MissingRoot
      | Some stage_root \<Rightarrow>
     (case opt_update options of None \<Rightarrow> Inl MissingUpdate
      | Some upd \<Rightarrow>
        Inr \<lparr> properties = (case opt_properties options of
                               None \<Rightarrow> \<lparr> position = True, rotation = True, size_opt = None,
                                         scale_opt = None, alpha_opt = None \<rparr>
                             | Some p \<Rightarrow> p),
              stage = stage_root,
              renderer = rnd,
              update = upd,
              interpolate = (if opt_interpolate options = Some False then False else True),
              paused = False,
              u_fps = opt_fps options,
              u_frameDuration = duration_of (opt_fps options),
              u_lag = 0,
              u_tick = 0,
              u_startTime = now,
              u_renderStartTime = 0,
              u_renderFps = opt_renderFps options,
              u_renderDuration = duration_of (opt_renderFps options),
              user = u0,
              trace = [] \<rparr>))))"

subsection \<open>Accessors, pause and resume\<close>

definition fps :: "'u smoothie \<Rightarrow> real option" where
  "fps s = u_fps s"

definition set_fps :: "real option \<Rightarrow> 'u smoothie \<Rightarrow> 'u smoothie" where
  "set_fps v s = s\<lparr> u_fps := v, u_frameDuration := duration_of v \<rparr>"

definition renderFps :: "'u smoothie \<Rightarrow> real option" where
  "renderFps s = u_renderFps s"

definition set_renderFps :: "real option \<Rightarrow> 'u smoothie \<Rightarrow> 'u smoothie" where
  "set_renderFps v s = s\<lparr> u_renderFps := v, u_renderDuration := duration_of v \<rparr>"

definition dt :: "'u smoothie \<Rightarrow> real" where
  "dt s = u_tick s"

definition pause :: "'u smoothie \<Rightarrow> 'u smoothie" where
  "pause s = s\<lparr> paused := True \<rparr>"

definition resume :: "'u smoothie \<Rightarrow> 'u smoothie" where
  "resume s = s\<lparr> paused := False \<rparr>"

definition start :: "'u smoothie \<Rightarrow> 'u smoothie" where
  "start s = s\<lparr> trace := trace s @ [RequestAnimationFrame] \<rparr>"

subsection \<open>The three walks over the scene tree\<close>

text \<open>\<^verbatim>\<open>setProperties\<close> inside \<^verbatim>\<open>capturePreviousSpriteProperties\<close>, for one node.\<close>

definition capture_own :: "smoothieProperties \<Rightarrow> attributes \<Rightarrow> attributes" where
  "capture_own p a0 =
     (let a1 = (if position p
                then a0\<lparr> u_previousX := Some (sprite_x a0), u_previousY := Some (sprite_y a0) \<rparr>
                else a0);
          a2 = (if rotation p
                then a1\<lparr> u_previousRotation := Some (sprite_rotation a1) \<rparr>
                else a1);
          a3 = (if truthy (size_opt p)
                then a2\<lparr> u_previousWidth := Some (get_width a2),
                         u_previousHeight := Some (get_height a2) \<rparr>
                else a2);
          a4 = (if truthy (scale_opt p)
                then a3\<lparr> u_previousScaleX := Some (scale_x a3),
                         u_previousScaleY := Some (scale_y a3) \<rparr>
                else a3);
          a5 = (if truthy (alpha_opt p)
                then a4\<lparr> u_previousAlpha := Some (sprite_alpha a4) \<rparr>
                else a4)
      in a5)"

fun setProperties :: "smoothieProperties \<Rightarrow> sprite \<Rightarrow> sprite" where
  "setProperties p (DisplayObject a cs) =
     DisplayObject (capture_own p a) (map (setProperties p) cs)"

text \<open>
  Each walk starts from a loop over \<^verbatim>\<open>this.stage.children\<close>: the stage itself is not
  visited. The three loops are \<open>capturePass\<close>, \<open>interpolatePass\<close> and \<open>restorePass\<close>.
\<close>

definition capturePass :: "smoothieProperties \<Rightarrow> sprite \<Rightarrow> sprite" where
  "capturePass p st = DisplayObject (attrs st) (map (setProperties p) (children st))"

definition capturePreviousSpriteProperties :: "'u smoothie \<Rightarrow> 'u smoothie" where
  "capturePreviousSpriteProperties s = s\<lparr> stage := capturePass (properties s) (stage s) \<rparr>"

text \<open>The blend \<^verbatim>\<open>(live - previous) * tick + previous\<close>, applied only to a defined previous.\<close>

definition blend :: "real \<Rightarrow> real option \<Rightarrow> real \<Rightarrow> real" where
  "blend live previous tick =
     (case previous of None \<Rightarrow> live | Some prev \<Rightarrow> (live - prev) * tick + prev)"

text \<open>
  The source evaluates this expression in IEEE 754 double precision, where every
  operation is rounded. \<open>fl\<close> rounds a real number to the nearest double, ties to
  even, for magnitudes in the normal range (no overflow, no subnormal numbers):
  \<open>binade\<close> finds the power of two below the magnitude, and the number is rounded to
  53 significant bits. \<open>blendDouble\<close> is the expression with each operation rounded.
  The walks below use the exact \<open>blend\<close>.
\<close>

fun binade :: "nat \<Rightarrow> real \<Rightarrow> int" where
  "binade 0 x = 0"
| "binade (Suc n) x =
     (if 2 \<le> x then binade n (x / 2) + 1
      else if x < 1 then binade n (2 * x) - 1
      else 0)"

definition roundHalfEven :: "real \<Rightarrow> int" where
  "roundHalfEven x =
     (if x - of_int \<lfloor>x\<rfloor> < 1 / 2 then \<lfloor>x\<rfloor>
      else if 1 / 2 < x - of_int \<lfloor>x\<rfloor> then \<lfloor>x\<rfloor> + 1
      else if even \<lfloor>x\<rfloor> then \<lfloor>x\<rfloor>
      else \<lfloor>x\<rfloor> + 1)"

definition fl :: "real \<Rightarrow> real" where
  "fl x =
     (let e = binade 1100 \<bar>x\<bar> - 52;
          u = (if 0 \<le> e then 2 ^ nat e else 1 / 2 ^ nat (- e))
      in of_int (roundHalfEven (x / u)) * u)"

definition blendDouble :: "real \<Rightarrow> real \<Rightarrow> real \<Rightarrow> real" where
  "blendDouble live prev tick = fl (fl (fl (live - prev) * tick) + prev)"

text \<open>
  \<^verbatim>\<open>interpolateSprite\<close> inside \<^verbatim>\<open>render\<close>, for one node: the five blocks of the
  source, one per attribute category, in its order. Each saves the live value in the
  current slot and then assigns the blend where the previous slot is defined.
\<close>

definition interpolate_position :: "smoothieProperties \<Rightarrow> real \<Rightarrow> attributes \<Rightarrow> attributes" where
  "interpolate_position p tick a =
     (if position p
      then (let b = a\<lparr> u_currentX := sprite_x a, u_currentY := sprite_y a \<rparr>;
                b1 = b\<lparr> sprite_x := blend (sprite_x b) (u_previousX b) tick \<rparr>;
                b2 = b1\<lparr> sprite_y := blend (sprite_y b1) (u_previousY b1) tick \<rparr>
            in b2)
      else a)"

definition interpolate_rotation :: "smoothieProperties \<Rightarrow> real \<Rightarrow> attributes \<Rightarrow> attributes" where
  "interpolate_rotation p tick a =
     (if rotation p
      then (let b = a\<lparr> u_currentRotation := sprite_rotation a \<rparr>
            in b\<lparr> sprite_rotation := blend (sprite_rotation b) (u_previousRotation b) tick \<rparr>)
      else a)"

definition interpolate_size :: "smoothieProperties \<Rightarrow> real \<Rightarrow> attributes \<Rightarrow> attributes" where
  "interpolate_size p tick a =
     (if truthy (size_opt p) \<and> instanceofSprite a
      then (let b = a\<lparr> u_currentWidth := get_width a, u_currentHeight := get_height a \<rparr>;
                b1 = (case u_previousWidth b of
                        None \<Rightarrow> b
                      | Some pw \<Rightarrow> set_width ((get_width b - pw) * tick + pw) b);
                b2 = (case u_previousHeight b1 of
                        None \<Rightarrow> b1
                      | Some ph \<Rightarrow> set_height ((get_height b1 - ph) * tick + ph) b1)
            in b2)
      else a)"

definition interpolate_scale :: "smoothieProperties \<Rightarrow> real \<Rightarrow> attributes \<Rightarrow> attributes" where
  "interpolate_scale p tick a =
     (if truthy (scale_opt p)
      then (let b = a\<lparr> u_currentScaleX := scale_x a, u_currentScaleY := scale_y a \<rparr>;
                b1 = b\<lparr> scale_x := blend (scale_x b) (u_previousScaleX b) tick \<rparr>;
                b2 = b1\<lparr> scale_y := blend (scale_y b1) (u_previousScaleY b1) tick \<rparr>
            in b2)
      else a)"

definition interpolate_alpha :: "smoothieProperties \<Rightarrow> real \<Rightarrow> attributes \<Rightarrow> attributes" where
  "interpolate_alpha p tick a =
     (if truthy (alpha_opt p)
      then (let b = a\<lparr> u_currentAlpha := sprite_alpha a \<rparr>
            in b\<lparr> sprite_alpha := blend (sprite_alpha b) (u_previousAlpha b) tick \<rparr>)
      else a)"

definition interpolate_own :: "smoothieProperties \<Rightarrow> real \<Rightarrow> attributes \<Rightarrow> attributes" where
  "interpolate_own p tick a0 =
     (let a1 = interpolate_position p tick a0;
          a2 = interpolate_rotation p tick a1;
          a3 = interpolate_size p tick a2;
          a4 = interpolate_scale p tick a3;
          a5 = interpolate_alpha p tick a4
      in a5)"

fun interpolateSprite :: "smoothieProperties \<Rightarrow> real \<Rightarrow> sprite \<Rightarrow> sprite" where
  "interpolateSprite p tick (DisplayObject a cs) =
     DisplayObject (interpolate_own p tick a) (map (interpolateSprite p tick) cs)"

definition interpolatePass :: "smoothieProperties \<Rightarrow> real \<Rightarrow> sprite \<Rightarrow> sprite" where
  "interpolatePass p tick st =
     DisplayObject (attrs st) (map (interpolateSprite p tick) (children st))"

text \<open>\<^verbatim>\<open>restoreSpriteProperties\<close>, for one node.\<close>

definition restore_own :: "smoothieProperties \<Rightarrow> attributes \<Rightarrow> attributes" where
  "restore_own p a0 =
     (let a1 = (if position p
                then a0\<lparr> sprite_x := u_currentX a0, sprite_y := u_currentY a0 \<rparr>
                else a0);
          a2 = (if rotation p
                then a1\<lparr> sprite_rotation := u_currentRotation a1 \<rparr>
                else a1);
          a3 = (if truthy (size_opt p) \<and> instanceofSprite a2
                then set_height (u_currentHeight a2) (set_width (u_currentWidth a2) a2)
                else a2);
          a4 = (if truthy (scale_opt p)
                then a3\<lparr> scale_x := u_currentScaleX a3, scale_y := u_currentScaleY a3 \<rparr>
                else a3);
          a5 = (if truthy (alpha_opt p)
                then a4\<lparr> sprite_alpha := u_currentAlpha a4 \<rparr>
                else a4)
      in a5)"

fun restoreSpriteProperties :: "smoothieProperties \<Rightarrow> sprite \<Rightarrow> sprite" where
  "restoreSpriteProperties p (DisplayObject a cs) =
     DisplayObject (restore_own p a) (map (restoreSpriteProperties p) cs)"

definition restorePass :: "smoothieProperties \<Rightarrow> sprite \<Rightarrow> sprite" where
  "restorePass p st = DisplayObject (attrs st) (map (restoreSpriteProperties p) (children st))"

subsection \<open>Rendering\<close>

text \<open>
  \<^verbatim>\<open>render(tick = 1)\<close>: the interpolation walk over the children of the stage, the draw
  call on the stage as it is then, and the restore walk.
\<close>

definition render :: "real \<Rightarrow> 'u smoothie \<Rightarrow> 'u smoothie" where
  "render tick s =
     (let s1 = (if interpolate s
                then s\<lparr> stage := interpolatePass (properties s) tick (stage s) \<rparr>
                else s);
          s2 = s1\<lparr> trace := trace s1 @ [Render (stage s1)] \<rparr>;
          s3 = (if interpolate s2
                then s2\<lparr> stage := restorePass (properties s2) (stage s2) \<rparr>
                else s2)
      in s3)"

subsection \<open>Draining the lag and the game loop\<close>

text \<open>\<^verbatim>\<open>this.update()\<close>: the callback runs on its own state and on the scene.\<close>

definition callUpdate :: "'u smoothie \<Rightarrow> 'u smoothie" where
  "callUpdate s =
     (case update s (user s) (stage s) of
        (u', st') \<Rightarrow> s\<lparr> user := u', stage := st', trace := trace s @ [Update] \<rparr>)"

text \<open>The body of the \<^verbatim>\<open>while\<close> loop of \<^verbatim>\<open>doInterpolate\<close>.\<close>

definition drainStep :: "real \<Rightarrow> 'u smoothie \<Rightarrow> 'u smoothie" where
  "drainStep frameDuration s =
     (let s1 = capturePreviousSpriteProperties s;
          s2 = callUpdate s1
      in s2\<lparr> u_lag := u_lag s2 - frameDuration \<rparr>)"

text \<open>
  The loop \<^verbatim>\<open>while (this._lag >= frameDuration)\<close>. It does not end when the frame
  duration is zero or negative and the lag has reached it: \<open>None\<close> is that outcome.
\<close>

partial_function (option) drainLoop :: "real \<Rightarrow> 'u smoothie \<Rightarrow> 'u smoothie option" where
  "drainLoop frameDuration s =
     (if u_lag s \<ge> frameDuration
      then drainLoop frameDuration (drainStep frameDuration s)
      else Some s)"

declare drainLoop.simps [code]

text \<open>The clamp of an anomalous gap: \<^verbatim>\<open>if (elapsed > 1000) elapsed = frameDuration\<close>.\<close>

definition clampElapsed :: "real \<Rightarrow> real \<Rightarrow> real" where
  "clampElapsed frameDuration elapsed = (if elapsed > 1000 then frameDuration else elapsed)"

text \<open>
  \<^verbatim>\<open>doInterpolate\<close>, the drain-and-render step; \<open>current\<close> is \<^verbatim>\<open>Date.now()\<close>. The source
  asserts that the frame duration is defined (\<^verbatim>\<open>this._frameDuration!\<close>); where it is not,
  the source computes with \<^verbatim>\<open>undefined\<close> and \<^verbatim>\<open>NaN\<close>, for which \<^typ>\<open>real\<close> has no
  value, and the model has no result.
\<close>

definition doInterpolate :: "real \<Rightarrow> 'u smoothie \<Rightarrow> 'u smoothie option" where
  "doInterpolate current s =
     (case u_frameDuration s of
        None \<Rightarrow> None
      | Some frameDuration \<Rightarrow>
          (let elapsed = clampElapsed frameDuration (current - u_startTime s);
               s1 = s\<lparr> u_startTime := current \<rparr>;
               s2 = s1\<lparr> u_lag := u_lag s1 + elapsed \<rparr>
           in case drainLoop frameDuration s2 of
                None \<Rightarrow> None
              | Some s3 \<Rightarrow>
                  (let s4 = s3\<lparr> u_tick := u_lag s3 / frameDuration \<rparr>
                   in Some (render (u_tick s4) s4))))"

text \<open>
  \<^verbatim>\<open>gameLoop(timestamp)\<close>; \<open>now\<close> is the value \<^verbatim>\<open>Date.now()\<close> has during the call.
  The source reads the render duration again after the drain; nothing writes it in
  between, so the value bound by the test before the drain is the one that is added.
\<close>

definition gameLoop :: "real \<Rightarrow> real \<Rightarrow> 'u smoothie \<Rightarrow> 'u smoothie option" where
  "gameLoop timestamp now s0 =
     (let s = s0\<lparr> trace := trace s0 @ [RequestAnimationFrame] \<rparr>
      in if \<not> paused s
         then (case u_fps s of
                 None \<Rightarrow> Some (render 1 (callUpdate s))
               | Some f \<Rightarrow>
                   (case (u_renderFps s, u_renderDuration s) of
                      (Some rf, Some renderDuration) \<Rightarrow>
                        if timestamp \<ge> u_renderStartTime s
                        then (case doInterpolate now s of
                                None \<Rightarrow> None
                              | Some s' \<Rightarrow>
                                  Some (s'\<lparr> u_renderStartTime := timestamp + renderDuration \<rparr>))
                        else Some s
                    | _ \<Rightarrow> doInterpolate now s))
         else Some s)"

text \<open>
  The host calls \<^verbatim>\<open>gameLoop\<close> once per display refresh, one call after the other; each
  notification is its timestamp with the value of \<^verbatim>\<open>Date.now()\<close> at that moment.
\<close>

fun runLoop :: "(real \<times> real) list \<Rightarrow> 'u smoothie \<Rightarrow> 'u smoothie option" where
  "runLoop [] s = Some s"
| "runLoop ((timestamp, now) # ns) s =
     (case gameLoop timestamp now s of None \<Rightarrow> None | Some s' \<Rightarrow> runLoop ns s')"

subsection \<open>Observations on states, traces and trees\<close>

text \<open>The live attribute values of a node: position, rotation, size, scale, opacity.\<close>

definition live ::
  "attributes \<Rightarrow> real \<times> real \<times> real \<times> real \<times> real \<times> real \<times> real \<times> real" where
  "live a = (sprite_x a, sprite_y a, sprite_rotation a, get_width a, get_height a,
             scale_x a, scale_y a, sprite_alpha a)"

text \<open>The live values of a whole tree, node by node.\<close>

abbreviation liveTree ::
  "sprite \<Rightarrow> (real \<times> real \<times> real \<times> real \<times> real \<times> real \<times> real \<times> real) displayObject" where
  "liveTree \<equiv> map_displayObject live"

text \<open>
  The configuration of a scheduler, which no scheduled invocation changes, and its
  clock state: last-update timestamp, lag, interpolation fraction, next-render time.
\<close>

definition config ::
  "'u smoothie \<Rightarrow> smoothieProperties \<times> renderer \<times> ('u \<Rightarrow> sprite \<Rightarrow> 'u \<times> sprite) \<times> bool \<times> bool \<times>
     real option \<times> real option \<times> real option \<times> real option" where
  "config s = (properties s, renderer s, update s, interpolate s, paused s,
               u_fps s, u_frameDuration s, u_renderFps s, u_renderDuration s)"

definition clock :: "'u smoothie \<Rightarrow> real \<times> real \<times> real \<times> real" where
  "clock s = (u_startTime s, u_lag s, u_tick s, u_renderStartTime s)"

text \<open>The number of calls of the update callback, and of the draw call, in a trace.\<close>

fun isUpdate :: "event \<Rightarrow> bool" where
  "isUpdate Update = True"
| "isUpdate _ = False"

fun isRender :: "event \<Rightarrow> bool" where
  "isRender (Render d) = True"
| "isRender _ = False"

definition updateCalls :: "event list \<Rightarrow> nat" where
  "updateCalls tr = length (filter isUpdate tr)"

definition renderCalls :: "event list \<Rightarrow> nat" where
  "renderCalls tr = length (filter isRender tr)"

text \<open>
  A sequence of elapsed-time deltas fed one per drain: for each delta \<open>d\<close> the clock
  reads \<open>d\<close> more than at the drain before.
\<close>

fun drains :: "real list \<Rightarrow> 'u smoothie \<Rightarrow> 'u smoothie option" where
  "drains [] s = Some s"
| "drains (d # ds) s =
     (case doInterpolate (u_startTime s + d) s of None \<Rightarrow> None | Some s' \<Rightarrow> drains ds s')"

text \<open>Notifications that arrive with a fixed period, the first at \<open>t0\<close>.\<close>

definition notifications :: "real \<Rightarrow> real \<Rightarrow> (nat \<Rightarrow> real) \<Rightarrow> nat \<Rightarrow> (real \<times> real) list" where
  "notifications t0 period dateNow n = map (\<lambda>k. (t0 + real k * period, dateNow k)) [0..<n]"

text \<open>
  The cap test of \<^verbatim>\<open>gameLoop\<close> on its own: the number of notifications, of a list,
  whose timestamp has reached the next-render time, which each of them moves to its
  timestamp plus the render duration.
\<close>

fun capDraws :: "real \<Rightarrow> real \<Rightarrow> (real \<times> real) list \<Rightarrow> nat" where
  "capDraws renderDuration renderStartTime [] = 0"
| "capDraws renderDuration renderStartTime ((timestamp, now) # ns) =
     (if timestamp \<ge> renderStartTime
      then Suc (capDraws renderDuration (timestamp + renderDuration) ns)
      else capDraws renderDuration renderStartTime ns)"

text \<open>The node reached from a node by a path of child indices.\<close>

fun nodeAt :: "'a displayObject \<Rightarrow> nat list \<Rightarrow> 'a displayObject option" where
  "nodeAt n [] = Some n"
| "nodeAt n (i # path) =
     (if i < length (children n) then nodeAt (children n ! i) path else None)"

text \<open>No previous shadow value is defined: in a node, in a subtree, below the stage.\<close>

definition noPrevious_own :: "attributes \<Rightarrow> bool" where
  "noPrevious_own a =
     (u_previousX a = None \<and> u_previousY a = None \<and> u_previousRotation a = None \<and>
      u_previousWidth a = None \<and> u_previousHeight a = None \<and>
      u_previousScaleX a = None \<and> u_previousScaleY a = None \<and> u_previousAlpha a = None)"

fun noPrevious :: "sprite \<Rightarrow> bool" where
  "noPrevious (DisplayObject a cs) = (noPrevious_own a \<and> list_all noPrevious cs)"

definition noPreviousScene :: "sprite \<Rightarrow> bool" where
  "noPreviousScene st = list_all noPrevious (children st)"

text \<open>
  Whole numbers of magnitude at most 2 ^ 52: differences and sums of two of them are
  integers of magnitude at most 2 ^ 53, which doubles represent exactly. A node is
  whole when its position, rotation, scale and opacity are, live and previous.
\<close>

definition whole :: "real \<Rightarrow> bool" where
  "whole v = (v \<in> \<int> \<and> \<bar>v\<bar> \<le> 2 ^ 52)"

definition wholeOpt :: "real option \<Rightarrow> bool" where
  "wholeOpt v = (case v of None \<Rightarrow> True | Some w \<Rightarrow> whole w)"

definition whole_own :: "attributes \<Rightarrow> bool" where
  "whole_own a =
     (whole (sprite_x a) \<and> whole (sprite_y a) \<and> whole (sprite_rotation a) \<and>
      whole (scale_x a) \<and> whole (scale_y a) \<and> whole (sprite_alpha a) \<and>
      wholeOpt (u_previousX a) \<and> wholeOpt (u_previousY a) \<and>
      wholeOpt (u_previousRotation a) \<and> wholeOpt (u_previousScaleX a) \<and>
      wholeOpt (u_previousScaleY a) \<and> wholeOpt (u_previousAlpha a))"

fun wholeTree :: "sprite \<Rightarrow> bool" where
  "wholeTree (DisplayObject a cs) = (whole_own a \<and> list_all wholeTree cs)"

definition wholeScene :: "sprite \<Rightarrow> bool" where
  "wholeScene st = list_all wholeTree (children st)"

subsection \<open>A concrete scene and scheduler\<close>

text \<open>
  A stage with one sprite, as the demo application builds it, and an update callback
  that moves every child of the stage ten units to the right.
\<close>

definition freshBall :: attributes where
  "freshBall =
     \<lparr> sprite_x = 0, sprite_y = 300, sprite_rotation = 0, sprite_width = 80,
       sprite_height = 80, scale_x = 1, scale_y = 1, sprite_alpha = 1,
       instanceofSprite = True, texture_width = 80, texture_height = 80,
       u_currentWidth = 0, u_currentHeight = 0,
       u_previousWidth = None, u_previousHeight = None,
       u_currentX = 0, u_currentY = 0, u_previousX = None, u_previousY = None,
       u_currentScaleX = 0, u_currentScaleY = 0,
       u_previousScaleX = None, u_previousScaleY = None,
       u_currentRotation = 0, u_previousRotation = None,
       u_currentAlpha = 0, u_previousAlpha = None \<rparr>"

definition movedBall :: attributes where
  "movedBall = freshBall\<lparr> u_previousX := Some 0, u_previousY := Some 300, sprite_x := 10 \<rparr>"

text \<open>
  A ball that grew from scale 1 to scale 2 since the last capture (its texture is 80
  wide, so its width went from 80 to 160), and a configuration that interpolates size
  and scale as well.
\<close>

definition grownBall :: attributes where
  "grownBall = freshBall\<lparr> scale_x := 2, scale_y := 2,
                           u_previousWidth := Some 80, u_previousHeight := Some 80,
                           u_previousScaleX := Some 1, u_previousScaleY := Some 1 \<rparr>"

definition sizeAndScale :: smoothieProperties where
  "sizeAndScale = \<lparr> position = True, rotation = True, size_opt = Some True,
                     scale_opt = Some True, alpha_opt = None \<rparr>"

text \<open>A ball at x = 1 whose previous x is far to the left.\<close>

definition farBall :: attributes where
  "farBall = freshBall\<lparr> u_previousX := Some (- (2 ^ 53)), u_previousY := Some 300,
                         sprite_x := 1 \<rparr>"

definition container :: attributes where
  "container = freshBall\<lparr> sprite_x := 0, sprite_y := 0, sprite_width := 0, sprite_height := 0,
                          instanceofSprite := False \<rparr>"

definition stageWith :: "attributes \<Rightarrow> sprite" where
  "stageWith b = DisplayObject container [DisplayObject b []]"

definition moveRight :: "unit \<Rightarrow> sprite \<Rightarrow> unit \<times> sprite" where
  "moveRight u st =
     (u, DisplayObject (attrs st)
           (map (\<lambda>c. DisplayObject ((attrs c)\<lparr> sprite_x := sprite_x (attrs c) + 10 \<rparr>) (children c))
                (children st)))"

definition demoOptions :: "real option \<Rightarrow> real option \<Rightarrow> sprite \<Rightarrow> unit smoothieOptions" where
  "demoOptions f rf st =
     \<lparr> opt_engine = Some PixiEngine, opt_renderer = Some PixiRenderer, opt_root = Some st,
       opt_update = Some moveRight, opt_interpolate = Some True, opt_fps = f,
       opt_renderFps = rf, opt_properties = None \<rparr>"

text \<open>The scheduler that the constructor builds from these options at time 0.\<close>

definition demo :: "real option \<Rightarrow> real option \<Rightarrow> sprite \<Rightarrow> unit smoothie" where
  "demo f rf st =
     \<lparr> properties = \<lparr> position = True, rotation = True, size_opt = None,
                      scale_opt = None, alpha_opt = None \<rparr>,
       stage = st, renderer = PixiRenderer, update = moveRight, interpolate = True,
       paused = False, u_fps = f, u_frameDuration = duration_of f, u_lag = 0, u_tick = 0,
       u_startTime = 0, u_renderStartTime = 0, u_renderFps = rf,
       u_renderDuration = duration_of rf, user = (), trace = [] \<rparr>"

section \<open>The walks, node by node\<close>

text \<open>
  What each walk does to each slot of one node. Everything below argues from these
  equations and does not open the three definitions again.
\<close>

lemma blend_None: "blend v None t = v"
  by (simp add: blend_def)

lemma interpolate_position_fields:
  "sprite_x (interpolate_position p t a) =
     (if position p then blend (sprite_x a) (u_previousX a) t else sprite_x a)"
  "sprite_y (interpolate_position p t a) =
     (if position p then blend (sprite_y a) (u_previousY a) t else sprite_y a)"
  "sprite_rotation (interpolate_position p t a) =
     sprite_rotation a"
  "sprite_alpha (interpolate_position p t a) =
     sprite_alpha a"
  "u_currentX (interpolate_position p t a) =
     (if position p then sprite_x a else u_currentX a)"
  "u_currentY (interpolate_position p t a) =
     (if position p then sprite_y a else u_currentY a)"
  "u_currentRotation (interpolate_position p t a) =
     u_currentRotation a"
  "u_currentAlpha (interpolate_position p t a) =
     u_currentAlpha a"
  "instanceofSprite (interpolate_position p t a) =
     instanceofSprite a"
  "u_previousX (interpolate_position p t a) =
     u_previousX a"
  "u_previousY (interpolate_position p t a) =
     u_previousY a"
  "u_previousRotation (interpolate_position p t a) =
     u_previousRotation a"
  "u_previousWidth (interpolate_position p t a) =
     u_previousWidth a"
  "u_previousHeight (interpolate_position p t a) =
     u_previousHeight a"
  "u_previousScaleX (interpolate_position p t a) =
     u_previousScaleX a"
  "u_previousScaleY (interpolate_position p t a) =
     u_previousScaleY a"
  "u_previousAlpha (interpolate_position p t a) =
     u_previousAlpha a"
  by (simp_all add: interpolate_position_def Let_def set_width_def set_height_def
      split: option.split)

lemma live_interpolate_position:
  "noPrevious_own a \<Longrightarrow> live (interpolate_position p t a) = live a"
  by (simp add: live_def interpolate_position_def Let_def noPrevious_own_def blend_None
      get_width_def get_height_def)

lemma noPrevious_own_interpolate_position:
  "noPrevious_own (interpolate_position p t a) = noPrevious_own a"
  by (simp add: noPrevious_own_def interpolate_position_fields)

lemma interpolate_rotation_fields:
  "sprite_x (interpolate_rotation p t a) =
     sprite_x a"
  "sprite_y (interpolate_rotation p t a) =
     sprite_y a"
  "sprite_rotation (interpolate_rotation p t a) =
     (if rotation p then blend (sprite_rotation a) (u_previousRotation a) t
      else sprite_rotation a)"
  "sprite_alpha (interpolate_rotation p t a) =
     sprite_alpha a"
  "u_currentX (interpolate_rotation p t a) =
     u_currentX a"
  "u_currentY (interpolate_rotation p t a) =
     u_currentY a"
  "u_currentRotation (interpolate_rotation p t a) =
     (if rotation p then sprite_rotation a else u_currentRotation a)"
  "u_currentAlpha (interpolate_rotation p t a) =
     u_currentAlpha a"
  "instanceofSprite (interpolate_rotation p t a) =
     instanceofSprite a"
  "u_previousX (interpolate_rotation p t a) =
     u_previousX a"
  "u_previousY (interpolate_rotation p t a) =
     u_previousY a"
  "u_previousRotation (interpolate_rotation p t a) =
     u_previousRotation a"
  "u_previousWidth (interpolate_rotation p t a) =
     u_previousWidth a"
  "u_previousHeight (interpolate_rotation p t a) =
     u_previousHeight a"
  "u_previousScaleX (interpolate_rotation p t a) =
     u_previousScaleX a"
  "u_previousScaleY (interpolate_rotation p t a) =
     u_previousScaleY a"
  "u_previousAlpha (interpolate_rotation p t a) =
     u_previousAlpha a"
  by (simp_all add: interpolate_rotation_def Let_def set_width_def set_height_def
      split: option.split)

lemma live_interpolate_rotation:
  "noPrevious_own a \<Longrightarrow> live (interpolate_rotation p t a) = live a"
  by (simp add: live_def interpolate_rotation_def Let_def noPrevious_own_def blend_None
      get_width_def get_height_def)

lemma noPrevious_own_interpolate_rotation:
  "noPrevious_own (interpolate_rotation p t a) = noPrevious_own a"
  by (simp add: noPrevious_own_def interpolate_rotation_fields)

lemma interpolate_size_fields:
  "sprite_x (interpolate_size p t a) =
     sprite_x a"
  "sprite_y (interpolate_size p t a) =
     sprite_y a"
  "sprite_rotation (interpolate_size p t a) =
     sprite_rotation a"
  "sprite_alpha (interpolate_size p t a) =
     sprite_alpha a"
  "u_currentX (interpolate_size p t a) =
     u_currentX a"
  "u_currentY (interpolate_size p t a) =
     u_currentY a"
  "u_currentRotation (interpolate_size p t a) =
     u_currentRotation a"
  "u_currentAlpha (interpolate_size p t a) =
     u_currentAlpha a"
  "instanceofSprite (interpolate_size p t a) =
     instanceofSprite a"
  "u_previousX (interpolate_size p t a) =
     u_previousX a"
  "u_previousY (interpolate_size p t a) =
     u_previousY a"
  "u_previousRotation (interpolate_size p t a) =
     u_previousRotation a"
  "u_previousWidth (interpolate_size p t a) =
     u_previousWidth a"
  "u_previousHeight (interpolate_size p t a) =
     u_previousHeight a"
  "u_previousScaleX (interpolate_size p t a) =
     u_previousScaleX a"
  "u_previousScaleY (interpolate_size p t a) =
     u_previousScaleY a"
  "u_previousAlpha (interpolate_size p t a) =
     u_previousAlpha a"
  by (simp_all add: interpolate_size_def Let_def set_width_def set_height_def
      split: option.split)

lemma live_interpolate_size:
  "noPrevious_own a \<Longrightarrow> live (interpolate_size p t a) = live a"
  by (simp add: live_def interpolate_size_def Let_def noPrevious_own_def blend_None
      get_width_def get_height_def)

lemma noPrevious_own_interpolate_size:
  "noPrevious_own (interpolate_size p t a) = noPrevious_own a"
  by (simp add: noPrevious_own_def interpolate_size_fields)

lemma interpolate_scale_fields:
  "sprite_x (interpolate_scale p t a) =
     sprite_x a"
  "sprite_y (interpolate_scale p t a) =
     sprite_y a"
  "sprite_rotation (interpolate_scale p t a) =
     sprite_rotation a"
  "sprite_alpha (interpolate_scale p t a) =
     sprite_alpha a"
  "u_currentX (interpolate_scale p t a) =
     u_currentX a"
  "u_currentY (interpolate_scale p t a) =
     u_currentY a"
  "u_currentRotation (interpolate_scale p t a) =
     u_currentRotation a"
  "u_currentAlpha (interpolate_scale p t a) =
     u_currentAlpha a"
  "instanceofSprite (interpolate_scale p t a) =
     instanceofSprite a"
  "u_previousX (interpolate_scale p t a) =
     u_previousX a"
  "u_previousY (interpolate_scale p t a) =
     u_previousY a"
  "u_previousRotation (interpolate_scale p t a) =
     u_previousRotation a"
  "u_previousWidth (interpolate_scale p t a) =
     u_previousWidth a"
  "u_previousHeight (interpolate_scale p t a) =
     u_previousHeight a"
  "u_previousScaleX (interpolate_scale p t a) =
     u_previousScaleX a"
  "u_previousScaleY (interpolate_scale p t a) =
     u_previousScaleY a"
  "u_previousAlpha (interpolate_scale p t a) =
     u_previousAlpha a"
  by (simp_all add: interpolate_scale_def Let_def set_width_def set_height_def
      split: option.split)

lemma live_interpolate_scale:
  "noPrevious_own a \<Longrightarrow> live (interpolate_scale p t a) = live a"
  by (simp add: live_def interpolate_scale_def Let_def noPrevious_own_def blend_None
      get_width_def get_height_def)

lemma noPrevious_own_interpolate_scale:
  "noPrevious_own (interpolate_scale p t a) = noPrevious_own a"
  by (simp add: noPrevious_own_def interpolate_scale_fields)

lemma interpolate_alpha_fields:
  "sprite_x (interpolate_alpha p t a) =
     sprite_x a"
  "sprite_y (interpolate_alpha p t a) =
     sprite_y a"
  "sprite_rotation (interpolate_alpha p t a) =
     sprite_rotation a"
  "sprite_alpha (interpolate_alpha p t a) =
     (if truthy (alpha_opt p) then blend (sprite_alpha a) (u_previousAlpha a) t
      else sprite_alpha a)"
  "u_currentX (interpolate_alpha p t a) =
     u_currentX a"
  "u_currentY (interpolate_alpha p t a) =
     u_currentY a"
  "u_currentRotation (interpolate_alpha p t a) =
     u_currentRotation a"
  "u_currentAlpha (interpolate_alpha p t a) =
     (if truthy (alpha_opt p) then sprite_alpha a else u_currentAlpha a)"
  "instanceofSprite (interpolate_alpha p t a) =
     instanceofSprite a"
  "u_previousX (interpolate_alpha p t a) =
     u_previousX a"
  "u_previousY (interpolate_alpha p t a) =
     u_previousY a"
  "u_previousRotation (interpolate_alpha p t a) =
     u_previousRotation a"
  "u_previousWidth (interpolate_alpha p t a) =
     u_previousWidth a"
  "u_previousHeight (interpolate_alpha p t a) =
     u_previousHeight a"
  "u_previousScaleX (interpolate_alpha p t a) =
     u_previousScaleX a"
  "u_previousScaleY (interpolate_alpha p t a) =
     u_previousScaleY a"
  "u_previousAlpha (interpolate_alpha p t a) =
     u_previousAlpha a"
  by (simp_all add: interpolate_alpha_def Let_def set_width_def set_height_def
      split: option.split)

lemma live_interpolate_alpha:
  "noPrevious_own a \<Longrightarrow> live (interpolate_alpha p t a) = live a"
  by (simp add: live_def interpolate_alpha_def Let_def noPrevious_own_def blend_None
      get_width_def get_height_def)

lemma noPrevious_own_interpolate_alpha:
  "noPrevious_own (interpolate_alpha p t a) = noPrevious_own a"
  by (simp add: noPrevious_own_def interpolate_alpha_fields)

lemma interpolate_own_live:
  "sprite_x (interpolate_own p t a) =
     (if position p then blend (sprite_x a) (u_previousX a) t else sprite_x a)"
  "sprite_y (interpolate_own p t a) =
     (if position p then blend (sprite_y a) (u_previousY a) t else sprite_y a)"
  "sprite_rotation (interpolate_own p t a) =
     (if rotation p then blend (sprite_rotation a) (u_previousRotation a) t
      else sprite_rotation a)"
  "sprite_alpha (interpolate_own p t a) =
     (if truthy (alpha_opt p) then blend (sprite_alpha a) (u_previousAlpha a) t
      else sprite_alpha a)"
  by (simp_all add: interpolate_own_def Let_def interpolate_position_fields
      interpolate_rotation_fields interpolate_size_fields interpolate_scale_fields
      interpolate_alpha_fields)

lemma interpolate_own_current:
  "u_currentX (interpolate_own p t a) = (if position p then sprite_x a else u_currentX a)"
  "u_currentY (interpolate_own p t a) = (if position p then sprite_y a else u_currentY a)"
  "u_currentRotation (interpolate_own p t a) =
     (if rotation p then sprite_rotation a else u_currentRotation a)"
  "u_currentAlpha (interpolate_own p t a) =
     (if truthy (alpha_opt p) then sprite_alpha a else u_currentAlpha a)"
  "instanceofSprite (interpolate_own p t a) = instanceofSprite a"
  by (simp_all add: interpolate_own_def Let_def interpolate_position_fields
      interpolate_rotation_fields interpolate_size_fields interpolate_scale_fields
      interpolate_alpha_fields)

lemma interpolate_own_previous:
  "u_previousX (interpolate_own p t a) = u_previousX a"
  "u_previousY (interpolate_own p t a) = u_previousY a"
  "u_previousRotation (interpolate_own p t a) = u_previousRotation a"
  "u_previousWidth (interpolate_own p t a) = u_previousWidth a"
  "u_previousHeight (interpolate_own p t a) = u_previousHeight a"
  "u_previousScaleX (interpolate_own p t a) = u_previousScaleX a"
  "u_previousScaleY (interpolate_own p t a) = u_previousScaleY a"
  "u_previousAlpha (interpolate_own p t a) = u_previousAlpha a"
  by (simp_all add: interpolate_own_def Let_def interpolate_position_fields
      interpolate_rotation_fields interpolate_size_fields interpolate_scale_fields
      interpolate_alpha_fields)

lemma restore_own_live:
  "sprite_x (restore_own p a) = (if position p then u_currentX a else sprite_x a)"
  "sprite_y (restore_own p a) = (if position p then u_currentY a else sprite_y a)"
  "sprite_rotation (restore_own p a) =
     (if rotation p then u_currentRotation a else sprite_rotation a)"
  "sprite_alpha (restore_own p a) =
     (if truthy (alpha_opt p) then u_currentAlpha a else sprite_alpha a)"
  by (auto simp add: restore_own_def Let_def set_width_def set_height_def)

lemma restore_own_previous:
  "u_previousX (restore_own p a) = u_previousX a"
  "u_previousY (restore_own p a) = u_previousY a"
  "u_previousRotation (restore_own p a) = u_previousRotation a"
  "u_previousWidth (restore_own p a) = u_previousWidth a"
  "u_previousHeight (restore_own p a) = u_previousHeight a"
  "u_previousScaleX (restore_own p a) = u_previousScaleX a"
  "u_previousScaleY (restore_own p a) = u_previousScaleY a"
  "u_previousAlpha (restore_own p a) = u_previousAlpha a"
  by (simp_all add: restore_own_def Let_def set_width_def set_height_def)

lemma live_interpolate_own_noPrevious:
  "noPrevious_own a \<Longrightarrow> live (interpolate_own p t a) = live a"
  by (simp add: interpolate_own_def Let_def live_interpolate_position
      live_interpolate_rotation live_interpolate_size live_interpolate_scale
      live_interpolate_alpha noPrevious_own_interpolate_position
      noPrevious_own_interpolate_rotation noPrevious_own_interpolate_size
      noPrevious_own_interpolate_scale)

lemma noPrevious_own_interpolate:
  "noPrevious_own (interpolate_own p t a) = noPrevious_own a"
  by (simp add: noPrevious_own_def interpolate_own_previous)

lemma noPrevious_own_restore:
  "noPrevious_own (restore_own p a) = noPrevious_own a"
  by (simp add: noPrevious_own_def restore_own_previous)

section \<open>The walks on trees\<close>

text \<open>At fraction 1 the exact blend is the live value.\<close>

lemma blend_one: "blend v prev 1 = v"
  by (simp add: blend_def split: option.split)

lemma live_interpolate_own_one:
  "\<not> truthy (size_opt p) \<Longrightarrow> live (interpolate_own p 1 a) = live a"
  by (simp add: interpolate_own_def Let_def live_def interpolate_position_def
      interpolate_rotation_def interpolate_size_def interpolate_scale_def
      interpolate_alpha_def blend_one get_width_def get_height_def)

lemma attrs_interpolateSprite: "attrs (interpolateSprite p t n) = interpolate_own p t (attrs n)"
  by (cases n) simp

lemma children_interpolateSprite:
  "children (interpolateSprite p t n) = map (interpolateSprite p t) (children n)"
  by (cases n) simp

lemma attrs_restoreSpriteProperties:
  "attrs (restoreSpriteProperties p n) = restore_own p (attrs n)"
  by (cases n) simp

lemma children_restoreSpriteProperties:
  "children (restoreSpriteProperties p n) = map (restoreSpriteProperties p) (children n)"
  by (cases n) simp

lemma liveTree_interpolate_noPrevious:
  "noPrevious n \<Longrightarrow> liveTree (interpolateSprite p t n) = liveTree n"
  by (induction n) (simp add: live_interpolate_own_noPrevious list_all_iff)

lemma liveTree_interpolate_one:
  "\<not> truthy (size_opt p) \<Longrightarrow> liveTree (interpolateSprite p 1 n) = liveTree n"
  by (induction n) (simp add: live_interpolate_own_one)

lemma noPrevious_interpolateSprite: "noPrevious (interpolateSprite p t n) = noPrevious n"
  by (induction n) (simp add: noPrevious_own_interpolate list_all_iff)

lemma noPrevious_restoreSpriteProperties:
  "noPrevious (restoreSpriteProperties p n) = noPrevious n"
  by (induction n) (simp add: noPrevious_own_restore list_all_iff)

lemma nodeAt_interpolateSprite:
  "nodeAt (interpolateSprite p t n) path = map_option (interpolateSprite p t) (nodeAt n path)"
  by (induction path arbitrary: n) (simp_all add: children_interpolateSprite)

lemma nodeAt_restoreSpriteProperties:
  "nodeAt (restoreSpriteProperties p n) path =
   map_option (restoreSpriteProperties p) (nodeAt n path)"
  by (induction path arbitrary: n) (simp_all add: children_restoreSpriteProperties)

lemma liveTree_interpolatePass_noPrevious:
  "noPreviousScene st \<Longrightarrow> liveTree (interpolatePass p t st) = liveTree st"
  by (cases st)
     (simp add: interpolatePass_def noPreviousScene_def liveTree_interpolate_noPrevious
        list_all_iff)

lemma liveTree_interpolatePass_one:
  "\<not> truthy (size_opt p) \<Longrightarrow> liveTree (interpolatePass p 1 st) = liveTree st"
  by (cases st) (simp add: interpolatePass_def liveTree_interpolate_one)

lemma noPreviousScene_interpolatePass:
  "noPreviousScene (interpolatePass p t st) = noPreviousScene st"
  by (simp add: interpolatePass_def noPreviousScene_def noPrevious_interpolateSprite
      list_all_iff)

lemma noPreviousScene_restorePass: "noPreviousScene (restorePass p st) = noPreviousScene st"
  by (simp add: restorePass_def noPreviousScene_def noPrevious_restoreSpriteProperties
      list_all_iff)

lemma nodeAt_interpolatePass:
  "nodeAt (interpolatePass p t st) (i # path) =
   map_option (interpolateSprite p t) (nodeAt st (i # path))"
  by (simp add: interpolatePass_def nodeAt_interpolateSprite)

lemma nodeAt_restorePass:
  "nodeAt (restorePass p st) (i # path) =
   map_option (restoreSpriteProperties p) (nodeAt st (i # path))"
  by (simp add: restorePass_def nodeAt_restoreSpriteProperties)

section \<open>One render call\<close>

lemma render_eq:
  "render t s =
     (if interpolate s
      then s\<lparr> stage := restorePass (properties s) (interpolatePass (properties s) t (stage s)),
              trace := trace s @ [Render (interpolatePass (properties s) t (stage s))] \<rparr>
      else s\<lparr> trace := trace s @ [Render (stage s)] \<rparr>)"
  by (simp add: render_def Let_def)

lemma config_render: "config (render t s) = config s"
  by (simp add: render_eq config_def)

lemma clock_render: "clock (render t s) = clock s"
  by (simp add: render_eq clock_def)

lemma user_render: "user (render t s) = user s"
  by (simp add: render_eq)

lemma noPreviousScene_render: "noPreviousScene (stage (render t s)) = noPreviousScene (stage s)"
  by (simp add: render_eq noPreviousScene_restorePass noPreviousScene_interpolatePass)

lemma updateCalls_render: "updateCalls (trace (render t s)) = updateCalls (trace s)"
  by (simp add: render_eq updateCalls_def)

lemma renderCalls_render: "renderCalls (trace (render t s)) = Suc (renderCalls (trace s))"
  by (simp add: render_eq renderCalls_def)

section \<open>The drain loop\<close>

lemma callUpdate_eq:
  "callUpdate s =
     s\<lparr> user := fst (update s (user s) (stage s)),
        stage := snd (update s (user s) (stage s)),
        trace := trace s @ [Update] \<rparr>"
  by (simp add: callUpdate_def split: prod.split)

lemma drainStep_eq:
  "drainStep fd s =
     s\<lparr> stage := snd (update s (user s) (capturePass (properties s) (stage s))),
        user := fst (update s (user s) (capturePass (properties s) (stage s))),
        trace := trace s @ [Update],
        u_lag := u_lag s - fd \<rparr>"
  by (simp add: drainStep_def Let_def callUpdate_eq capturePreviousSpriteProperties_def)

lemma drainStep_fields:
  "config (drainStep fd s) = config s"
  "u_lag (drainStep fd s) = u_lag s - fd"
  "u_startTime (drainStep fd s) = u_startTime s"
  "u_tick (drainStep fd s) = u_tick s"
  "u_renderStartTime (drainStep fd s) = u_renderStartTime s"
  "updateCalls (trace (drainStep fd s)) = Suc (updateCalls (trace s))"
  "renderCalls (trace (drainStep fd s)) = renderCalls (trace s)"
  by (simp_all add: drainStep_eq config_def updateCalls_def renderCalls_def)

lemma drainSteps_fields:
  "config ((drainStep fd ^^ n) s) = config s"
  "u_lag ((drainStep fd ^^ n) s) = u_lag s - real n * fd"
  "u_startTime ((drainStep fd ^^ n) s) = u_startTime s"
  "u_tick ((drainStep fd ^^ n) s) = u_tick s"
  "u_renderStartTime ((drainStep fd ^^ n) s) = u_renderStartTime s"
  "updateCalls (trace ((drainStep fd ^^ n) s)) = updateCalls (trace s) + n"
  "renderCalls (trace ((drainStep fd ^^ n) s)) = renderCalls (trace s)"
  by (induction n) (simp_all add: drainStep_fields algebra_simps)

lemma drainLoop_done: "u_lag s < fd \<Longrightarrow> drainLoop fd s = Some s"
  by (subst drainLoop.simps) simp

lemma drainLoop_step: "fd \<le> u_lag s \<Longrightarrow> drainLoop fd s = drainLoop fd (drainStep fd s)"
  by (subst drainLoop.simps) simp

text \<open>The number of whole ticks in a lag.\<close>

lemma ticks_zero:
  fixes fd l :: real
  assumes "0 < fd" and "nat \<lfloor>l / fd\<rfloor> = 0"
  shows "l < fd"
proof -
  from assms(2) have "\<lfloor>l / fd\<rfloor> \<le> 0" by simp
  then have "l / fd < 1" by (simp add: floor_le_iff)
  with assms(1) show ?thesis by (simp add: divide_less_eq)
qed

lemma ticks_Suc:
  fixes fd l :: real
  assumes "0 < fd" and "nat \<lfloor>l / fd\<rfloor> = Suc n"
  shows "fd \<le> l" and "nat \<lfloor>(l - fd) / fd\<rfloor> = n"
proof -
  from assms(2) have one: "1 \<le> \<lfloor>l / fd\<rfloor>" by linarith
  then have "1 \<le> l / fd" by (simp add: le_floor_iff)
  with assms(1) show "fd \<le> l" by (simp add: le_divide_eq)
  from assms(1) have "(l - fd) / fd = l / fd - 1" by (simp add: diff_divide_distrib)
  then have "\<lfloor>(l - fd) / fd\<rfloor> = \<lfloor>l / fd\<rfloor> - 1" by simp
  with assms(2) show "nat \<lfloor>(l - fd) / fd\<rfloor> = n" by linarith
qed

lemma drainLoop_ticks:
  "0 < fd \<Longrightarrow> nat \<lfloor>u_lag s / fd\<rfloor> = n \<Longrightarrow> drainLoop fd s = Some ((drainStep fd ^^ n) s)"
proof (induction n arbitrary: s)
  case 0
  then have "u_lag s < fd" by (rule ticks_zero)
  then show ?case by (simp add: drainLoop_done)
next
  case (Suc n)
  from ticks_Suc [OF Suc.prems] have ge: "fd \<le> u_lag s"
    and n: "nat \<lfloor>(u_lag s - fd) / fd\<rfloor> = n" by simp_all
  from n have "nat \<lfloor>u_lag (drainStep fd s) / fd\<rfloor> = n"
    by (simp add: drainStep_fields)
  with Suc.IH [OF Suc.prems(1)]
  have "drainLoop fd (drainStep fd s) = Some ((drainStep fd ^^ n) (drainStep fd s))"
    by blast
  moreover have "(drainStep fd ^^ Suc n) s = (drainStep fd ^^ n) (drainStep fd s)"
    by (simp only: funpow_Suc_right o_apply)
  moreover note drainLoop_step [OF ge]
  ultimately show ?case by (simp only:)
qed

lemma drainLoop_terminates:
  "0 < fd \<Longrightarrow> drainLoop fd s = Some ((drainStep fd ^^ nat \<lfloor>u_lag s / fd\<rfloor>) s)"
  by (rule drainLoop_ticks [OF _ refl])

text \<open>What is left of a lag after its whole ticks.\<close>

lemma residue_less:
  fixes fd l :: real
  assumes "0 < fd"
  shows "l - real (nat \<lfloor>l / fd\<rfloor>) * fd < fd"
proof (cases "0 \<le> l")
  case True
  with assms have "0 \<le> \<lfloor>l / fd\<rfloor>" by simp
  then have eq: "real (nat \<lfloor>l / fd\<rfloor>) = of_int \<lfloor>l / fd\<rfloor>" by (rule of_nat_nat)
  have "l / fd < of_int \<lfloor>l / fd\<rfloor> + 1" by linarith
  with assms have "l < (of_int \<lfloor>l / fd\<rfloor> + 1) * fd" by (simp only: pos_divide_less_eq)
  then have "l - of_int \<lfloor>l / fd\<rfloor> * fd < fd" by (simp add: algebra_simps)
  then show ?thesis by (simp only: eq)
next
  case False
  with assms have "l / fd < 0" by (simp add: divide_less_0_iff)
  then have "\<lfloor>l / fd\<rfloor> < 0" by linarith
  then have "nat \<lfloor>l / fd\<rfloor> = 0" by simp
  with False assms show ?thesis by simp
qed

lemma residue_nonneg:
  fixes fd l :: real
  assumes "0 < fd" and "0 \<le> l"
  shows "0 \<le> l - real (nat \<lfloor>l / fd\<rfloor>) * fd"
proof -
  from assms have "0 \<le> \<lfloor>l / fd\<rfloor>" by simp
  then have eq: "real (nat \<lfloor>l / fd\<rfloor>) = of_int \<lfloor>l / fd\<rfloor>" by (rule of_nat_nat)
  have "of_int \<lfloor>l / fd\<rfloor> \<le> l / fd" by linarith
  with assms have "of_int \<lfloor>l / fd\<rfloor> * fd \<le> l" by (simp only: pos_le_divide_eq)
  then have "0 \<le> l - of_int \<lfloor>l / fd\<rfloor> * fd" by linarith
  then show ?thesis by (simp only: eq)
qed

section \<open>One drain-and-render\<close>

lemma doInterpolate_Some:
  assumes "u_frameDuration s = Some fd"
    and "drainLoop fd (s\<lparr> u_startTime := now,
            u_lag := u_lag s + clampElapsed fd (now - u_startTime s) \<rparr>) = Some s3"
  shows "doInterpolate now s = Some (render (u_lag s3 / fd) (s3\<lparr> u_tick := u_lag s3 / fd \<rparr>))"
  using assms by (simp add: doInterpolate_def Let_def)

text \<open>The outcome of \<^verbatim>\<open>doInterpolate\<close> for a positive frame duration, field by field.\<close>

lemma render_fields:
  "u_lag (render t s) = u_lag s"
  "u_tick (render t s) = u_tick s"
  "u_startTime (render t s) = u_startTime s"
  "u_renderStartTime (render t s) = u_renderStartTime s"
  by (simp_all add: render_eq)

lemma clampElapsed_nonneg: "0 < fd \<Longrightarrow> 0 \<le> e \<Longrightarrow> 0 \<le> clampElapsed fd e"
  by (simp add: clampElapsed_def)

lemma doInterpolate_result:
  fixes s :: "'u smoothie" and fd now :: real
  assumes fd: "u_frameDuration s = Some fd" and pos: "0 < fd"
  defines "L \<equiv> u_lag s + clampElapsed fd (now - u_startTime s)"
  shows "\<exists>s'. doInterpolate now s = Some s' \<and>
           config s' = config s \<and>
           u_lag s' = L - real (nat \<lfloor>L / fd\<rfloor>) * fd \<and>
           u_tick s' = u_lag s' / fd \<and>
           u_startTime s' = now \<and>
           u_renderStartTime s' = u_renderStartTime s \<and>
           updateCalls (trace s') = updateCalls (trace s) + nat \<lfloor>L / fd\<rfloor> \<and>
           renderCalls (trace s') = Suc (renderCalls (trace s))"
proof -
  define s2 where "s2 = s\<lparr> u_startTime := now, u_lag := L \<rparr>"
  define s3 where "s3 = (drainStep fd ^^ nat \<lfloor>L / fd\<rfloor>) s2"
  define s' where "s' = render (u_lag s3 / fd) (s3\<lparr> u_tick := u_lag s3 / fd \<rparr>)"
  have "drainLoop fd s2 = Some s3"
    using drainLoop_terminates [OF pos, of s2] by (simp add: s2_def s3_def)
  then have run: "doInterpolate now s = Some s'"
    unfolding s2_def L_def s'_def by (rule doInterpolate_Some [OF fd])
  have c: "config s3 = config s"
    by (simp add: s3_def drainSteps_fields) (simp add: s2_def config_def)
  have l: "u_lag s3 = L - real (nat \<lfloor>L / fd\<rfloor>) * fd"
    by (simp add: s3_def drainSteps_fields) (simp add: s2_def)
  have st: "u_startTime s3 = now"
    by (simp add: s3_def drainSteps_fields) (simp add: s2_def)
  have rs: "u_renderStartTime s3 = u_renderStartTime s"
    by (simp add: s3_def drainSteps_fields) (simp add: s2_def)
  have u: "updateCalls (trace s3) = updateCalls (trace s) + nat \<lfloor>L / fd\<rfloor>"
    by (simp add: s3_def drainSteps_fields) (simp add: s2_def)
  have r: "renderCalls (trace s3) = renderCalls (trace s)"
    by (simp add: s3_def drainSteps_fields) (simp add: s2_def)
  have "config s' = config s"
    using c by (simp add: s'_def config_render) (simp add: config_def)
  moreover have "u_lag s' = L - real (nat \<lfloor>L / fd\<rfloor>) * fd"
    using l by (simp add: s'_def render_fields)
  moreover have "u_tick s' = u_lag s' / fd"
    by (simp add: s'_def render_fields)
  moreover have "u_startTime s' = now"
    using st by (simp add: s'_def render_fields)
  moreover have "u_renderStartTime s' = u_renderStartTime s"
    using rs by (simp add: s'_def render_fields)
  moreover have "updateCalls (trace s') = updateCalls (trace s) + nat \<lfloor>L / fd\<rfloor>"
    using u by (simp add: s'_def updateCalls_render)
  moreover have "renderCalls (trace s') = Suc (renderCalls (trace s))"
    using r by (simp add: s'_def renderCalls_render)
  ultimately show ?thesis using run by blast
qed

section \<open>Sequences of drains\<close>

lemma config_frameDuration: "config s' = config s \<Longrightarrow> u_frameDuration s' = u_frameDuration s"
  by (simp add: config_def)

lemma floor_of_ticks:
  fixes fd l T :: real and k :: nat
  assumes "0 < fd" and "0 \<le> l" and "l < fd" and "l + real k * fd = T"
  shows "\<lfloor>T / fd\<rfloor> = int k"
proof (rule floor_unique)
  from assms(1,4) have eq: "T / fd = real k + l / fd"
    by (simp add: field_simps)
  from assms(1,2) have "0 \<le> l / fd" by simp
  with eq show "of_int (int k) \<le> T / fd" by simp
  from assms(1,3) have "l / fd < 1" by simp
  with eq show "T / fd < of_int (int k) + 1" by simp
qed

lemma drains_invariant:
  fixes s :: "'u smoothie"
  assumes "u_frameDuration s = Some fd" and "0 < fd" and "0 \<le> u_lag s"
    and "\<forall>d\<in>set ds. 0 \<le> d"
  shows "\<exists>s' k. drains ds s = Some s' \<and> 0 \<le> u_lag s' \<and> (ds \<noteq> [] \<longrightarrow> u_lag s' < fd) \<and>
           updateCalls (trace s') = updateCalls (trace s) + k \<and>
           u_lag s' + real k * fd = u_lag s + sum_list (map (clampElapsed fd) ds)"
  using assms
proof (induction ds arbitrary: s)
  case Nil
  have "drains [] s = Some s \<and> 0 \<le> u_lag s \<and> ([] \<noteq> ([] :: real list) \<longrightarrow> u_lag s < fd) \<and>
          updateCalls (trace s) = updateCalls (trace s) + 0 \<and>
          u_lag s + real 0 * fd = u_lag s + sum_list (map (clampElapsed fd) [])"
    using Nil.prems(3) by simp
  then show ?case by (intro exI)
next
  case (Cons d ds)
  define L where "L = u_lag s + clampElapsed fd d"
  define n where "n = nat \<lfloor>L / fd\<rfloor>"
  have d: "0 \<le> d" using Cons.prems(4) by simp
  have tl: "\<forall>d\<in>set ds. 0 \<le> d" using Cons.prems(4) by simp
  have "0 \<le> clampElapsed fd d" using Cons.prems(2) d by (rule clampElapsed_nonneg)
  with Cons.prems(3) have L: "0 \<le> L" unfolding L_def by linarith
  have e: "u_startTime s + d - u_startTime s = d" by simp
  note doInterpolate_result [OF Cons.prems(1,2), of "u_startTime s + d",
      unfolded e, folded L_def, folded n_def]
  then obtain s1 where run: "doInterpolate (u_startTime s + d) s = Some s1"
    and c1: "config s1 = config s"
    and l1: "u_lag s1 = L - real n * fd"
    and u1: "updateCalls (trace s1) = updateCalls (trace s) + n"
    by blast
  have fd1: "u_frameDuration s1 = Some fd"
    using config_frameDuration [OF c1] Cons.prems(1) by (simp only:)
  have nn1: "0 \<le> u_lag s1"
    using residue_nonneg [OF Cons.prems(2) L] unfolding l1 n_def .
  have lt1: "u_lag s1 < fd"
    using residue_less [OF Cons.prems(2), of L] unfolding l1 n_def .
  from Cons.IH [OF fd1 Cons.prems(2) nn1 tl]
  obtain s' k where rest: "drains ds s1 = Some s'" and nn: "0 \<le> u_lag s'"
    and lt: "ds \<noteq> [] \<longrightarrow> u_lag s' < fd"
    and u: "updateCalls (trace s') = updateCalls (trace s1) + k"
    and sum: "u_lag s' + real k * fd = u_lag s1 + sum_list (map (clampElapsed fd) ds)"
    by blast
  have r: "drains (d # ds) s = Some s'" using run rest by simp
  have b: "u_lag s' < fd"
  proof (cases "ds = []")
    case True
    with rest have "s' = s1" by simp
    with lt1 show ?thesis by (simp only:)
  next
    case False
    with lt show ?thesis by (simp only: simp_thms)
  qed
  have c: "updateCalls (trace s') = updateCalls (trace s) + (n + k)"
    unfolding u u1 by (simp only: add.assoc)
  have "u_lag s' + real (n + k) * fd = (u_lag s' + real k * fd) + real n * fd"
    by (simp add: distrib_right)
  also have "\<dots> = L - real n * fd + sum_list (map (clampElapsed fd) ds) + real n * fd"
    by (simp only: sum l1)
  also have "\<dots> = u_lag s + (clampElapsed fd d + sum_list (map (clampElapsed fd) ds))"
    unfolding L_def by linarith
  finally have t: "u_lag s' + real (n + k) * fd =
      u_lag s + sum_list (map (clampElapsed fd) (d # ds))"
    by (simp only: list.map sum_list.Cons)
  from r nn b c t show ?case by blast
qed

lemma clamped_sum_int:
  "fd \<in> \<int> \<Longrightarrow> \<forall>d\<in>set ds. d \<in> \<int> \<Longrightarrow> sum_list (map (clampElapsed fd) ds) \<in> \<int>"
  by (induction ds) (simp_all add: clampElapsed_def)

text \<open>
  Claim C1, as the code has it. Let the frame duration be a positive whole number of
  milliseconds, the lag a whole number that is not negative, the clock a whole number
  (as \<^verbatim>\<open>Date.now()\<close> is) that does not run backwards, so that every elapsed-time delta
  is a whole number that is not negative, and feed at least one delta, one per drain.
  Then every drain returns, the number of calls of the update callback over all the
  drains is the floor of (lag before + sum of the deltas) / frame duration, where a delta
  above 1000 ms counts as one frame duration (\<open>clampElapsed\<close>), and the lag after the
  last drain, hence after every drain, is a whole number in [0, frame duration).

  With the bounds of the statement every number that the drains compute from the
  clock, the lag and the frame duration is an integer of magnitude at most 2 ^ 53, on
  which the double precision arithmetic of the source is exact. For a frame duration
  such as 1000 / 60 it is not, and the count of the source can differ from the floor.
\<close>

theorem drains_update_count:
  fixes s :: "'u smoothie"
  assumes "u_frameDuration s = Some fd" and "0 < fd" and "0 \<le> u_lag s"
    and "\<forall>d\<in>set ds. 0 \<le> d" and "ds \<noteq> []"
    and "fd \<in> \<int>" and "u_lag s \<in> \<int>" and "u_startTime s \<in> \<int>" and "\<forall>d\<in>set ds. d \<in> \<int>"
    and "fd \<le> 2 ^ 52" and "u_lag s \<le> 2 ^ 52"
    and "0 \<le> u_startTime s" and "u_startTime s + sum_list ds \<le> 2 ^ 53"
  shows "\<exists>s'. drains ds s = Some s' \<and>
           int (updateCalls (trace s')) - int (updateCalls (trace s)) =
             \<lfloor>(u_lag s + sum_list (map (clampElapsed fd) ds)) / fd\<rfloor> \<and>
           0 \<le> u_lag s' \<and> u_lag s' < fd \<and> u_lag s' \<in> \<int>"
proof -
  from drains_invariant [OF assms(1-4)] assms(5)
  obtain s' k where run: "drains ds s = Some s'" and nn: "0 \<le> u_lag s'"
    and lt: "u_lag s' < fd"
    and u: "updateCalls (trace s') = updateCalls (trace s) + k"
    and sum: "u_lag s' + real k * fd = u_lag s + sum_list (map (clampElapsed fd) ds)"
    by blast
  from floor_of_ticks [OF assms(2) nn lt sum]
  have "\<lfloor>(u_lag s + sum_list (map (clampElapsed fd) ds)) / fd\<rfloor> = int k" .
  with u have c: "int (updateCalls (trace s')) - int (updateCalls (trace s)) =
          \<lfloor>(u_lag s + sum_list (map (clampElapsed fd) ds)) / fd\<rfloor>"
    by simp
  have "sum_list (map (clampElapsed fd) ds) \<in> \<int>"
    using assms(6,9) by (rule clamped_sum_int)
  with assms(6,7) have "u_lag s + sum_list (map (clampElapsed fd) ds) - real k * fd \<in> \<int>"
    by (intro Ints_diff Ints_add Ints_mult Ints_of_nat)
  moreover from sum
  have "u_lag s' = u_lag s + sum_list (map (clampElapsed fd) ds) - real k * fd"
    by linarith
  ultimately have "u_lag s' \<in> \<int>" by (simp only:)
  with run c nn lt show ?thesis by blast
qed

text \<open>
  At 50 ticks per second (a frame duration of 20 ms), deltas of 16, 16 and 17 ms give
  two calls of the update callback.
\<close>

theorem drains_update_count_witness:
  "\<exists>s'. drains [16, 16, 17] (demo (Some 50) None (stageWith freshBall)) = Some s' \<and>
         int (updateCalls (trace s')) = 2 \<and> 0 \<le> u_lag s' \<and> u_lag s' < 20 \<and> u_lag s' \<in> \<int>"
  using drains_update_count [of "demo (Some 50) None (stageWith freshBall)" 20 "[16, 16, 17]"]
  by (simp add: demo_def duration_of_def clampElapsed_def updateCalls_def)

text \<open>
  Without the clamp in the formula the claim fails: at 60 ticks per second one delta of
  5000 ms gives one call of the update callback, and the quotient is 300.
\<close>

theorem drains_formula_counterexample:
  "u_frameDuration (demo (Some 60) None (stageWith freshBall)) = Some (1000 / 60) \<and>
   map_option (updateCalls \<circ> trace)
     (drains [5000] (demo (Some 60) None (stageWith freshBall))) = Some 1 \<and>
   \<lfloor>(u_lag (demo (Some 60) None (stageWith freshBall)) + sum_list [5000]) / (1000 / 60)\<rfloor>
     = (300 :: int)"
proof -
  define s where "s = demo (Some 60) None (stageWith freshBall)"
  have fd: "u_frameDuration s = Some (1000 / 60)"
    by (simp add: s_def demo_def duration_of_def)
  have init: "u_startTime s = 0" "u_lag s = 0" "trace s = []"
    by (simp_all add: s_def demo_def)
  have ticks: "nat \<lfloor>(u_lag s + clampElapsed (1000 / 60) (5000 - u_startTime s)) / (1000 / 60)\<rfloor> = 1"
    by (simp add: init clampElapsed_def)
  from doInterpolate_result [OF fd, of 5000]
  obtain s' where "doInterpolate 5000 s = Some s'"
    and "updateCalls (trace s') = updateCalls (trace s) + 1"
    unfolding ticks by auto
  then have "map_option (updateCalls \<circ> trace) (drains [5000] s) = Some 1"
    by (simp add: init updateCalls_def)
  moreover have "\<lfloor>(u_lag s + sum_list [5000]) / (1000 / 60)\<rfloor> = (300 :: int)"
    by (simp add: init)
  ultimately show ?thesis using fd unfolding s_def by blast
qed

section \<open>The clamp and the fraction\<close>

text \<open>
  Claim C3. Let the frame duration be positive and the lag in [0, frame duration). A
  drain-and-render whose elapsed time is above 1000 ms (5000 ms, say, at a frame
  duration of 16.67 ms) adds exactly one frame duration to the lag, calls the update
  callback exactly once, and leaves the lag as it was.
\<close>

theorem clamp_one_update:
  fixes s :: "'u smoothie"
  assumes "u_frameDuration s = Some fd" and "0 < fd" and "0 \<le> u_lag s" and "u_lag s < fd"
    and "1000 < now - u_startTime s"
  shows "clampElapsed fd (now - u_startTime s) = fd \<and>
         (\<exists>s'. doInterpolate now s = Some s' \<and>
               updateCalls (trace s') = updateCalls (trace s) + 1 \<and>
               u_lag s' = u_lag s)"
proof -
  have cl: "clampElapsed fd (now - u_startTime s) = fd"
    using assms(5) by (simp add: clampElapsed_def)
  have "(u_lag s + fd) / fd = u_lag s / fd + 1"
    using assms(2) by (simp add: add_divide_distrib)
  moreover have "\<lfloor>u_lag s / fd\<rfloor> = 0"
  proof (rule floor_unique)
    show "of_int 0 \<le> u_lag s / fd" using assms(2,3) by simp
    show "u_lag s / fd < of_int 0 + 1" using assms(2,4) by simp
  qed
  ultimately have n: "nat \<lfloor>(u_lag s + fd) / fd\<rfloor> = 1" by simp
  note doInterpolate_result [OF assms(1,2), of now, unfolded cl n]
  then obtain s' where "doInterpolate now s = Some s'"
    and "updateCalls (trace s') = updateCalls (trace s) + 1"
    and "u_lag s' = u_lag s + fd - real 1 * fd"
    by blast
  then have "doInterpolate now s = Some s' \<and>
      updateCalls (trace s') = updateCalls (trace s) + 1 \<and> u_lag s' = u_lag s"
    by simp
  with cl show ?thesis by blast
qed

text \<open>At 60 ticks per second (a frame duration of 16.67 ms), five seconds after the start.\<close>

theorem clamp_one_update_witness:
  "clampElapsed (1000 / 60) 5000 = 1000 / 60 \<and>
   (\<exists>s'. doInterpolate 5000 (demo (Some 60) None (stageWith freshBall)) = Some s' \<and>
         updateCalls (trace s') = 1 \<and> u_lag s' = 0)"
  using clamp_one_update [of "demo (Some 60) None (stageWith freshBall)" "1000 / 60" 5000]
  by (simp add: demo_def duration_of_def updateCalls_def)

text \<open>
  Claim C4. Let the frame duration be positive, the lag not negative, and the clock not
  behind the last update. After a drain-and-render the fraction that \<open>dt\<close> returns is
  the lag divided by the frame duration, and it is in [0, 1).
\<close>

theorem fraction_in_unit_interval:
  fixes s :: "'u smoothie"
  assumes "u_frameDuration s = Some fd" and "0 < fd" and "0 \<le> u_lag s"
    and "u_startTime s \<le> now"
  shows "\<exists>s'. doInterpolate now s = Some s' \<and> dt s' = u_lag s' / fd \<and>
              0 \<le> dt s' \<and> dt s' < 1"
proof -
  define L where "L = u_lag s + clampElapsed fd (now - u_startTime s)"
  have "0 \<le> clampElapsed fd (now - u_startTime s)"
    using assms(2,4) by (simp add: clampElapsed_nonneg)
  with assms(3) have L: "0 \<le> L" unfolding L_def by linarith
  note doInterpolate_result [OF assms(1,2), of now, folded L_def]
  then obtain s' where run: "doInterpolate now s = Some s'"
    and l: "u_lag s' = L - real (nat \<lfloor>L / fd\<rfloor>) * fd"
    and t: "u_tick s' = u_lag s' / fd"
    by blast
  have nn: "0 \<le> u_lag s'" unfolding l using assms(2) L by (rule residue_nonneg)
  have lt: "u_lag s' < fd" unfolding l using assms(2) by (rule residue_less)
  have "dt s' = u_lag s' / fd" using t by (simp add: dt_def)
  moreover have "0 \<le> u_lag s' / fd" using nn assms(2) by simp
  moreover have "u_lag s' / fd < 1" using lt assms(2) by simp
  ultimately show ?thesis using run by auto
qed

text \<open>At 60 ticks per second, 40 ms after the start: two ticks, and 0.4 of the third.\<close>

theorem fraction_in_unit_interval_witness:
  "\<exists>s'. doInterpolate 40 (demo (Some 60) None (stageWith freshBall)) = Some s' \<and>
        dt s' = u_lag s' / (1000 / 60) \<and> 0 \<le> dt s' \<and> dt s' < 1"
  using fraction_in_unit_interval [of "demo (Some 60) None (stageWith freshBall)" "1000 / 60" 40]
  by (simp add: demo_def duration_of_def)

section \<open>The render call is transient\<close>

text \<open>
  Claim C2 says that after a render call every node has the live attribute values it
  had before. The restore walk attempts this and misses it when size and scale are
  both interpolated: the interpolation walk assigns the blended width, which on a sprite
  rewrites the scale, before it saves the scale; the restore walk assigns the saved
  width and then the saved, already blended, scale. The ball of width 160 and scale 2,
  rendered at fraction 0.5, is left with width 120 and scale 1.5.
\<close>

theorem render_size_and_scale_not_restored:
  "liveTree (stage ((demo (Some 60) None (stageWith grownBall))\<lparr> properties := sizeAndScale \<rparr>)) =
     DisplayObject (live container) [DisplayObject (0, 300, 0, 160, 160, 2, 2, 1) []] \<and>
   liveTree (stage (render (1 / 2)
       ((demo (Some 60) None (stageWith grownBall))\<lparr> properties := sizeAndScale \<rparr>))) =
     DisplayObject (live container) [DisplayObject (0, 300, 0, 120, 120, 3 / 2, 3 / 2, 1) []]"
  by (simp add: render_def Let_def demo_def stageWith_def interpolatePass_def restorePass_def
      sizeAndScale_def grownBall_def freshBall_def interpolate_own_def restore_own_def
      interpolate_position_def interpolate_rotation_def interpolate_size_def
      interpolate_scale_def interpolate_alpha_def container_def
      truthy_def blend_def live_def get_width_def get_height_def set_width_def
      set_height_def)

text \<open>
  Claim C5. Let interpolation and the position category be enabled, and let a node
  below the stage have a previous x and a live x. A render call draws the node with
  x = previous + (live - previous) * fraction, and leaves it with its live x; with
  previous 0, live 10 and fraction 0.5 the node is drawn at 5 and left at 10.
\<close>

theorem render_blends_then_restores_x:
  fixes s :: "'u smoothie"
  assumes "interpolate s" and "position (properties s)"
    and "nodeAt (stage s) (i # path) = Some n"
    and "u_previousX (attrs n) = Some px"
  shows "\<exists>drawn d r. trace (render tick s) = trace s @ [Render drawn] \<and>
           nodeAt drawn (i # path) = Some d \<and>
           sprite_x (attrs d) = px + (sprite_x (attrs n) - px) * tick \<and>
           nodeAt (stage (render tick s)) (i # path) = Some r \<and>
           sprite_x (attrs r) = sprite_x (attrs n)"
proof -
  let ?p = "properties s"
  let ?d = "interpolateSprite ?p tick n"
  let ?r = "restoreSpriteProperties ?p ?d"
  have tr: "trace (render tick s) = trace s @ [Render (interpolatePass ?p tick (stage s))]"
    using assms(1) by (simp add: render_eq)
  have d: "nodeAt (interpolatePass ?p tick (stage s)) (i # path) = Some ?d"
    using assms(3) by (simp only: nodeAt_interpolatePass option.map)
  have dx: "sprite_x (attrs ?d) = px + (sprite_x (attrs n) - px) * tick"
    using assms(2,4) by (simp add: attrs_interpolateSprite interpolate_own_live blend_def)
  have st: "stage (render tick s) = restorePass ?p (interpolatePass ?p tick (stage s))"
    using assms(1) by (simp add: render_eq)
  have r: "nodeAt (stage (render tick s)) (i # path) = Some ?r"
    unfolding st using d by (simp only: nodeAt_restorePass option.map)
  have rx: "sprite_x (attrs ?r) = sprite_x (attrs n)"
    using assms(2)
    by (simp add: attrs_restoreSpriteProperties attrs_interpolateSprite restore_own_live
        interpolate_own_current)
  from tr d dx r rx show ?thesis by blast
qed

text \<open>The ball that moved from x = 0 to x = 10, rendered at fraction 0.5.\<close>

theorem render_blends_then_restores_x_witness:
  "\<exists>drawn d r. trace (render (1 / 2) (demo (Some 60) None (stageWith movedBall))) = [Render drawn] \<and>
     nodeAt drawn [0] = Some d \<and> sprite_x (attrs d) = 5 \<and>
     nodeAt (stage (render (1 / 2) (demo (Some 60) None (stageWith movedBall)))) [0] = Some r \<and>
     sprite_x (attrs r) = 10"
  using render_blends_then_restores_x [of "demo (Some 60) None (stageWith movedBall)" 0 "[]"
      "DisplayObject movedBall []" 0 "1 / 2"]
  by (simp add: demo_def stageWith_def movedBall_def freshBall_def)

section \<open>Construction\<close>

lemma demo_constructed: "constructor (demoOptions f rf st) 0 () = Inr (demo f rf st)"
  by (simp add: constructor_def demoOptions_def demo_def)

text \<open>
  Claim C8, as the code has it. The constructor raises an error exactly when one of the
  four required options is absent: the rendering engine, the renderer, the root
  container, the update callback. Otherwise it returns a scheduler that is not paused,
  with lag 0 and fraction 0. No other operation has an error among its results.
\<close>

theorem constructor_error_iff:
  "(\<exists>e. constructor options now u0 = Inl e) =
     (opt_engine options = None \<or> opt_renderer options = None \<or>
      opt_root options = None \<or> opt_update options = None) \<and>
   (\<forall>s. constructor options now u0 = Inr s \<longrightarrow>
      opt_root options = Some (stage s) \<and> opt_update options = Some (update s) \<and>
      \<not> paused s \<and> u_lag s = 0 \<and> dt s = 0 \<and> u_startTime s = now \<and> trace s = [])"
proof (rule conjI)
  show "(\<exists>e. constructor options now u0 = Inl e) =
     (opt_engine options = None \<or> opt_renderer options = None \<or>
      opt_root options = None \<or> opt_update options = None)"
    by (simp add: constructor_def split: option.splits)
next
  have "opt_root options = Some (stage s) \<and> opt_update options = Some (update s) \<and>
      \<not> paused s \<and> u_lag s = 0 \<and> dt s = 0 \<and> u_startTime s = now \<and> trace s = []"
    if built: "constructor options now u0 = Inr s" for s
  proof -
    from built obtain eng rnd st upd where "opt_engine options = Some eng"
      and "opt_renderer options = Some rnd" and "opt_root options = Some st"
      and "opt_update options = Some upd"
      by (auto simp add: constructor_def split: option.splits)
    with built show ?thesis
      by (auto simp add: constructor_def dt_def)
  qed
  then show "\<forall>s. constructor options now u0 = Inr s \<longrightarrow>
      opt_root options = Some (stage s) \<and> opt_update options = Some (update s) \<and>
      \<not> paused s \<and> u_lag s = 0 \<and> dt s = 0 \<and> u_startTime s = now \<and> trace s = []"
    by blast
qed

text \<open>The options of the demo application are complete; without any argument the engine is missing.\<close>

theorem constructor_error_iff_witness:
  "\<not> (\<exists>e. constructor (demoOptions (Some 30) None (stageWith freshBall)) 0 () = Inl e) \<and>
   (\<exists>e. constructor (defaultOptions :: unit smoothieOptions) 0 () = Inl e) \<and>
   u_lag (demo (Some 30) None (stageWith freshBall)) = 0"
  using constructor_error_iff [of "demoOptions (Some 30) None (stageWith freshBall)" 0 "()"]
    constructor_error_iff [of "defaultOptions :: unit smoothieOptions" 0 "()"]
  by (simp add: demoOptions_def defaultOptions_def demo_constructed [unfolded demoOptions_def])

text \<open>
  With the renderer, the root and the update callback supplied but no engine, the
  constructor raises an error.
\<close>

theorem constructor_engine_counterexample:
  "opt_renderer ((demoOptions (Some 30) None (stageWith freshBall))\<lparr> opt_engine := None \<rparr>) \<noteq> None \<and>
   opt_root ((demoOptions (Some 30) None (stageWith freshBall))\<lparr> opt_engine := None \<rparr>) \<noteq> None \<and>
   opt_update ((demoOptions (Some 30) None (stageWith freshBall))\<lparr> opt_engine := None \<rparr>) \<noteq> None \<and>
   constructor ((demoOptions (Some 30) None (stageWith freshBall))\<lparr> opt_engine := None \<rparr>) 0 ()
     = Inl MissingEngine"
  by (simp add: constructor_def demoOptions_def)

section \<open>The game loop\<close>

lemma gameLoop_paused:
  "paused s \<Longrightarrow> gameLoop t now s = Some (s\<lparr> trace := trace s @ [RequestAnimationFrame] \<rparr>)"
  by (simp add: gameLoop_def Let_def)

lemma gameLoop_uncapped:
  "\<not> paused s \<Longrightarrow> u_fps s = None \<Longrightarrow>
   gameLoop t now s = Some (render 1 (callUpdate (s\<lparr> trace := trace s @ [RequestAnimationFrame] \<rparr>)))"
  by (simp add: gameLoop_def Let_def)

lemma runLoop_paused:
  "paused s \<Longrightarrow>
   runLoop ns s = Some (s\<lparr> trace := trace s @ replicate (length ns) RequestAnimationFrame \<rparr>)"
proof (induction ns arbitrary: s)
  case Nil
  then show ?case by simp
next
  case (Cons n ns)
  obtain t now where n: "n = (t, now)" by (cases n)
  let ?s1 = "s\<lparr> trace := trace s @ [RequestAnimationFrame] \<rparr>"
  from Cons.prems have "paused ?s1" by simp
  from Cons.IH [OF this] Cons.prems show ?case
    by (simp add: n gameLoop_paused replicate_app_Cons_same)
qed

text \<open>
  Claim C9. While the scheduler is paused, a scheduled invocation only registers the
  loop for the next frame: it calls neither the update callback nor the draw call, and
  it changes no field of the scheduler, the clock state included. \<open>pause\<close> and
  \<open>resume\<close> change the paused flag only: putting the flag back gives the scheduler as
  it was. After any number of invocations during a pause, \<open>resume\<close> gives the
  scheduler as it was before the pause apart from the trace, so the last-update
  timestamp is still that of the last active invocation.
\<close>

theorem paused_changes_nothing:
  "gameLoop t now (pause s) = Some ((pause s)\<lparr> trace := trace s @ [RequestAnimationFrame] \<rparr>) \<and>
   paused (pause s) \<and> \<not> paused (resume s) \<and>
   (pause s)\<lparr> paused := paused s \<rparr> = s \<and> (resume s)\<lparr> paused := paused s \<rparr> = s \<and>
   clock (pause s) = clock s \<and> clock (resume s) = clock s \<and>
   (\<exists>s'. runLoop ns (pause s) = Some s' \<and>
         updateCalls (trace s') = updateCalls (trace s) \<and>
         renderCalls (trace s') = renderCalls (trace s) \<and>
         clock s' = clock s \<and>
         resume s' = s\<lparr> paused := False,
                        trace := trace s @ replicate (length ns) RequestAnimationFrame \<rparr>)"
proof -
  have p: "paused (pause s)" by (simp add: pause_def)
  have "runLoop ns (pause s) =
          Some ((pause s)\<lparr> trace := trace (pause s) @ replicate (length ns) RequestAnimationFrame \<rparr>)"
    using p by (rule runLoop_paused)
  then have run: "\<exists>s'. runLoop ns (pause s) = Some s' \<and>
         updateCalls (trace s') = updateCalls (trace s) \<and>
         renderCalls (trace s') = renderCalls (trace s) \<and>
         clock s' = clock s \<and>
         resume s' = s\<lparr> paused := False,
                        trace := trace s @ replicate (length ns) RequestAnimationFrame \<rparr>"
    by (simp add: pause_def resume_def clock_def updateCalls_def renderCalls_def)
  have g: "gameLoop t now (pause s) =
             Some ((pause s)\<lparr> trace := trace s @ [RequestAnimationFrame] \<rparr>)"
    using gameLoop_paused [OF p, of t now] by (simp add: pause_def)
  have "paused (pause s) \<and> \<not> paused (resume s) \<and>
   (pause s)\<lparr> paused := paused s \<rparr> = s \<and> (resume s)\<lparr> paused := paused s \<rparr> = s \<and>
   clock (pause s) = clock s \<and> clock (resume s) = clock s"
    by (simp add: pause_def resume_def clock_def)
  with g run show ?thesis by (simp only: simp_thms)
qed

section \<open>Without a logic rate\<close>

lemma config_fields:
  assumes "config s' = config s"
  shows "properties s' = properties s" and "update s' = update s"
    and "interpolate s' = interpolate s" and "paused s' = paused s"
    and "u_fps s' = u_fps s" and "u_frameDuration s' = u_frameDuration s"
    and "u_renderFps s' = u_renderFps s" and "u_renderDuration s' = u_renderDuration s"
  using assms by (simp_all add: config_def)

lemma config_callUpdate: "config (callUpdate s) = config s"
  by (simp add: callUpdate_eq config_def)

lemma clock_callUpdate: "clock (callUpdate s) = clock s"
  by (simp add: callUpdate_eq clock_def)

lemma trace_render:
  "\<exists>drawn. trace (render tick s) = trace s @ [Render drawn] \<and>
           drawn = (if interpolate s then interpolatePass (properties s) tick (stage s)
                    else stage s)"
  by (simp add: render_eq)

text \<open>
  Claim C7, as the code has it. When no logic rate is configured and the scheduler is
  not paused, a scheduled invocation is one call of the update callback followed by
  one render call: after the registration for the next frame the trace grows by one
  update and one draw, and the clock state (last-update timestamp, lag, fraction,
  next-render time) is untouched. The render call has fraction 1, so the frame drawn
  shows the live values that the update left
  \<^item> when interpolation is disabled (the frame is the scene itself),
  \<^item> when no node has a previous shadow value (no blend is evaluated),
  \<^item> when the values of position, rotation, scale and opacity are whole numbers of
    magnitude at most 2 ^ 52 and the size is not interpolated (the blend at fraction 1
    is evaluated without rounding).
  Of other scenes the statement says nothing: there the blend at fraction 1 is subject
  to the rounding of double precision.
\<close>

theorem uncapped_update_then_render:
  fixes s :: "'u smoothie"
  assumes "\<not> paused s" and "u_fps s = None"
  shows "\<exists>s' drawn. gameLoop t now s = Some s' \<and>
            trace s' = trace s @ [RequestAnimationFrame, Update, Render drawn] \<and>
            (\<not> interpolate s \<longrightarrow> drawn = snd (update s (user s) (stage s))) \<and>
            (noPreviousScene (snd (update s (user s) (stage s))) \<longrightarrow>
               liveTree drawn = liveTree (snd (update s (user s) (stage s)))) \<and>
            (wholeScene (snd (update s (user s) (stage s))) \<and>
             \<not> truthy (size_opt (properties s)) \<longrightarrow>
               liveTree drawn = liveTree (snd (update s (user s) (stage s)))) \<and>
            user s' = fst (update s (user s) (stage s)) \<and>
            clock s' = clock s"
proof -
  let ?r = "s\<lparr> trace := trace s @ [RequestAnimationFrame] \<rparr>"
  let ?u = "callUpdate ?r"
  let ?s' = "render 1 ?u"
  let ?st = "snd (update s (user s) (stage s))"
  let ?d = "if interpolate s then interpolatePass (properties s) 1 ?st else ?st"
  have g: "gameLoop t now s = Some ?s'"
    using assms by (rule gameLoop_uncapped)
  have st: "stage ?u = ?st"
    and us: "user ?u = fst (update s (user s) (stage s))"
    and tr: "trace ?u = trace s @ [RequestAnimationFrame, Update]"
    and cf: "interpolate ?u = interpolate s" "properties ?u = properties s"
    by (simp_all add: callUpdate_eq)
  have "trace ?s' = trace ?u @ [Render ?d]"
    by (simp add: render_eq cf st)
  then have t': "trace ?s' = trace s @ [RequestAnimationFrame, Update, Render ?d]"
    by (simp only: tr append_assoc append.simps)
  have off: "\<not> interpolate s \<longrightarrow> ?d = ?st"
    by simp
  have d: "noPreviousScene ?st \<longrightarrow> liveTree ?d = liveTree ?st"
    by (simp add: liveTree_interpolatePass_noPrevious)
  have w: "wholeScene ?st \<and> \<not> truthy (size_opt (properties s)) \<longrightarrow> liveTree ?d = liveTree ?st"
    by (simp add: liveTree_interpolatePass_one)
  have u: "user ?s' = fst (update s (user s) (stage s))"
    by (simp only: user_render us)
  have "clock ?s' = clock ?r"
    by (simp only: clock_render clock_callUpdate)
  then have c: "clock ?s' = clock s"
    by (simp add: clock_def)
  from g t' off d w u c show ?thesis by blast
qed

text \<open>
  The demo scheduler without a logic rate. The ball that has a previous position, with
  whole coordinates, is drawn where the update put it; so is the fresh ball, which
  has no previous values; and with interpolation disabled the frame is the scene.
\<close>

theorem uncapped_update_then_render_witness:
  "(\<exists>s' drawn. gameLoop 16 16 (demo None None (stageWith movedBall)) = Some s' \<and>
      trace s' = [RequestAnimationFrame, Update, Render drawn] \<and>
      liveTree drawn = liveTree (snd (moveRight () (stageWith movedBall))) \<and>
      user s' = () \<and> clock s' = (0, 0, 0, 0)) \<and>
   (\<exists>s' drawn. gameLoop 16 16 (demo None None (stageWith freshBall)) = Some s' \<and>
      trace s' = [RequestAnimationFrame, Update, Render drawn] \<and>
      liveTree drawn = liveTree (snd (moveRight () (stageWith freshBall)))) \<and>
   (\<exists>s' drawn. gameLoop 16 16 ((demo None None (stageWith movedBall))\<lparr> interpolate := False \<rparr>)
        = Some s' \<and>
      trace s' = [RequestAnimationFrame, Update, Render drawn] \<and>
      drawn = snd (moveRight () (stageWith movedBall)))"
proof -
  let ?A = "demo None None (stageWith movedBall)"
  let ?B = "demo None None (stageWith freshBall)"
  let ?C = "(demo None None (stageWith movedBall))\<lparr> interpolate := False \<rparr>"
  have hA: "\<not> paused ?A" "u_fps ?A = None"
    and hB: "\<not> paused ?B" "u_fps ?B = None"
    and hC: "\<not> paused ?C" "u_fps ?C = None"
    by (simp_all add: demo_def)
  have wA: "wholeScene (snd (moveRight () (stageWith movedBall)))"
    by (simp add: moveRight_def stageWith_def wholeScene_def whole_own_def whole_def
        wholeOpt_def movedBall_def freshBall_def)
  have nB: "noPreviousScene (snd (moveRight () (stageWith freshBall)))"
    by (simp add: moveRight_def stageWith_def noPreviousScene_def noPrevious_own_def
        freshBall_def)
  have iA: "update ?A = moveRight" "user ?A = ()" "stage ?A = stageWith movedBall"
    "trace ?A = []" "clock ?A = (0, 0, 0, 0)" "\<not> truthy (size_opt (properties ?A))"
    by (simp_all add: demo_def clock_def truthy_def)
  have iB: "update ?B = moveRight" "user ?B = ()" "stage ?B = stageWith freshBall"
    "trace ?B = []"
    by (simp_all add: demo_def)
  have iC: "update ?C = moveRight" "user ?C = ()" "stage ?C = stageWith movedBall"
    "trace ?C = []" "\<not> interpolate ?C"
    by (simp_all add: demo_def)
  from uncapped_update_then_render [OF hA, of 16 16] wA iA(6)
  have "\<exists>s' drawn. gameLoop 16 16 ?A = Some s' \<and>
      trace s' = [RequestAnimationFrame, Update, Render drawn] \<and>
      liveTree drawn = liveTree (snd (moveRight () (stageWith movedBall))) \<and>
      user s' = () \<and> clock s' = (0, 0, 0, 0)"
    unfolding iA(1-5) by auto
  moreover from uncapped_update_then_render [OF hB, of 16 16] nB
  have "\<exists>s' drawn. gameLoop 16 16 ?B = Some s' \<and>
      trace s' = [RequestAnimationFrame, Update, Render drawn] \<and>
      liveTree drawn = liveTree (snd (moveRight () (stageWith freshBall)))"
    unfolding iB by auto
  moreover from uncapped_update_then_render [OF hC, of 16 16]
  have "\<exists>s' drawn. gameLoop 16 16 ?C = Some s' \<and>
      trace s' = [RequestAnimationFrame, Update, Render drawn] \<and>
      drawn = snd (moveRight () (stageWith movedBall))"
    using iC(5) unfolding iC(1-4) by auto
  ultimately show ?thesis by blast
qed

text \<open>
  The frame drawn need not show the live values. For the ball at x = 1 with previous
  x = - 2 ^ 53 the update gives x = 11, and the render call evaluates the blend of 11
  and - 2 ^ 53 at fraction 1; in double precision the difference 2 ^ 53 + 11 is rounded
  to 2 ^ 53 + 12, and the ball is drawn at x = 12.
\<close>

lemma binade_pos:
  "2 ^ k \<le> x \<Longrightarrow> x < 2 ^ Suc k \<Longrightarrow> k \<le> n \<Longrightarrow> binade n x = int k"
proof (induction k arbitrary: n x)
  case 0
  then show ?case by (cases n) simp_all
next
  case (Suc k)
  then obtain m where n: "n = Suc m" and km: "k \<le> m" by (cases n) simp_all
  have "(1 :: real) \<le> 2 ^ k" by simp
  then have "(2 :: real) \<le> 2 ^ Suc k" by simp
  with Suc.prems(1) have two: "2 \<le> x" by linarith
  from Suc.prems have "2 ^ k \<le> x / 2" and "x / 2 < 2 ^ Suc k" by simp_all
  from Suc.IH [OF this km] have "binade m (x / 2) = int k" .
  with two show ?case by (simp add: n)
qed

lemma fl_far: "fl (11 - - (2 ^ 53)) = 2 ^ 53 + 12"
proof -
  have "binade 1100 \<bar>11 - - (2 ^ 53)\<bar> = int 53"
    by (rule binade_pos) simp_all
  then show ?thesis
    by (simp add: fl_def roundHalfEven_def)
qed

lemma fl_twelve: "fl (2 ^ 53 + 12 + - (2 ^ 53)) = 12"
proof -
  have "binade 1100 \<bar>2 ^ 53 + 12 + - (2 ^ 53)\<bar> = int 3"
    by (rule binade_pos) simp_all
  then show ?thesis
    by (simp add: fl_def roundHalfEven_def)
qed

lemma fl_far_again: "fl ((2 ^ 53 + 12) * 1) = 2 ^ 53 + 12"
proof -
  have "binade 1100 \<bar>(2 ^ 53 + 12) * 1\<bar> = int 53"
    by (rule binade_pos) simp_all
  then show ?thesis
    by (simp add: fl_def roundHalfEven_def)
qed

lemma blendDouble_far: "blendDouble 11 (- (2 ^ 53)) 1 = 12"
  by (simp only: blendDouble_def fl_far fl_far_again fl_twelve)

theorem uncapped_blend_counterexample:
  "u_fps (demo None None (stageWith farBall)) = None \<and>
   map_option trace (gameLoop 0 0 (demo None None (stageWith farBall))) =
     Some [RequestAnimationFrame, Update,
           Render (interpolatePass (properties (demo None None (stageWith farBall))) 1
                     (snd (moveRight () (stageWith farBall))))] \<and>
   map (sprite_x \<circ> attrs) (children (snd (moveRight () (stageWith farBall)))) = [11] \<and>
   map (u_previousX \<circ> attrs) (children (snd (moveRight () (stageWith farBall)))) = [Some (- (2 ^ 53))] \<and>
   blend 11 (Some (- (2 ^ 53))) 1 = 11 \<and>
   blendDouble 11 (- (2 ^ 53)) 1 = 12"
proof -
  let ?D = "demo None None (stageWith farBall)"
  have h: "\<not> paused ?D" "u_fps ?D = None"
    by (simp_all add: demo_def)
  have "gameLoop 0 0 ?D = Some (render 1 (callUpdate (?D\<lparr> trace := trace ?D @ [RequestAnimationFrame] \<rparr>)))"
    using h by (rule gameLoop_uncapped)
  then have "map_option trace (gameLoop 0 0 ?D) =
     Some [RequestAnimationFrame, Update,
           Render (interpolatePass (properties ?D) 1 (snd (moveRight () (stageWith farBall))))]"
    by (simp add: render_eq callUpdate_eq) (simp add: demo_def)
  moreover have "map (sprite_x \<circ> attrs) (children (snd (moveRight () (stageWith farBall)))) = [11]"
    and "map (u_previousX \<circ> attrs) (children (snd (moveRight () (stageWith farBall)))) =
           [Some (- (2 ^ 53))]"
    by (simp_all add: moveRight_def stageWith_def farBall_def freshBall_def)
  moreover have "blend 11 (Some (- (2 ^ 53))) 1 = 11"
    by (simp add: blend_def)
  ultimately show ?thesis using h(2) blendDouble_far by blast
qed

section \<open>No capture without a logic rate\<close>

lemma noPrevious_moved:
  "noPrevious (DisplayObject ((attrs c)\<lparr> sprite_x := v \<rparr>) (children c)) = noPrevious c"
  by (cases c) (simp add: noPrevious_own_def)

lemma moveRight_noPrevious:
  "noPreviousScene st \<Longrightarrow> noPreviousScene (snd (moveRight u st))"
  by (simp add: noPreviousScene_def moveRight_def list_all_iff noPrevious_moved
      del: noPrevious.simps)

lemma gameLoop_uncapped_invariant:
  fixes s :: "'u smoothie"
  assumes "u_fps s = None" and "noPreviousScene (stage s)"
    and "\<forall>u st. noPreviousScene st \<longrightarrow> noPreviousScene (snd (update s u st))"
  shows "\<exists>s'. gameLoop t now s = Some s' \<and> config s' = config s \<and>
              noPreviousScene (stage s')"
proof (cases "paused s")
  case True
  then show ?thesis
    using assms(2) by (simp add: gameLoop_paused config_def)
next
  case False
  let ?r = "s\<lparr> trace := trace s @ [RequestAnimationFrame] \<rparr>"
  have g: "gameLoop t now s = Some (render 1 (callUpdate ?r))"
    using False assms(1) by (rule gameLoop_uncapped)
  have "config (render 1 (callUpdate ?r)) = config ?r"
    by (simp only: config_render config_callUpdate)
  then have c: "config (render 1 (callUpdate ?r)) = config s"
    by (simp add: config_def)
  have "stage (callUpdate ?r) = snd (update s (user s) (stage s))"
    by (simp add: callUpdate_eq)
  with assms(2,3) have "noPreviousScene (stage (callUpdate ?r))"
    by simp
  then have "noPreviousScene (stage (render 1 (callUpdate ?r)))"
    by (simp only: noPreviousScene_render)
  with g c show ?thesis by blast
qed

lemma runLoop_uncapped_invariant:
  fixes s :: "'u smoothie"
  assumes "u_fps s = None" and "noPreviousScene (stage s)"
    and "\<forall>u st. noPreviousScene st \<longrightarrow> noPreviousScene (snd (update s u st))"
  shows "\<exists>s'. runLoop ns s = Some s' \<and> config s' = config s \<and> noPreviousScene (stage s')"
  using assms
proof (induction ns arbitrary: s)
  case Nil
  then show ?case by simp
next
  case (Cons n ns)
  obtain t now where n: "n = (t, now)" by (cases n)
  from gameLoop_uncapped_invariant [OF Cons.prems, of t now]
  obtain s1 where g: "gameLoop t now s = Some s1" and c1: "config s1 = config s"
    and p1: "noPreviousScene (stage s1)"
    by blast
  have f1: "u_fps s1 = None"
    using config_fields(5) [OF c1] Cons.prems(1) by (simp only:)
  have u1: "\<forall>u st. noPreviousScene st \<longrightarrow> noPreviousScene (snd (update s1 u st))"
    using config_fields(2) [OF c1] Cons.prems(3) by (simp only:)
  from Cons.IH [OF f1 p1 u1]
  obtain s' where r: "runLoop ns s1 = Some s'" and c: "config s' = config s1"
    and p: "noPreviousScene (stage s')"
    by blast
  have "runLoop (n # ns) s = Some s'"
    using g r by (simp add: n)
  moreover have "config s' = config s"
    using c c1 by (simp only:)
  ultimately show ?case using p by blast
qed

text \<open>
  Claim C10. Let no logic rate be configured, let no node below the stage have a
  previous shadow value, and let the update callback define none. Then after any
  number of scheduled invocations there is still no logic rate and no previous shadow
  value; and the render call that follows the update of the next invocation draws the
  live values that the update left, whatever the fraction passed to it and whether or
  not interpolation is enabled.
\<close>

theorem no_logic_rate_no_blend:
  fixes s :: "'u smoothie"
  assumes "u_fps s = None" and "noPreviousScene (stage s)"
    and "\<forall>u st. noPreviousScene st \<longrightarrow> noPreviousScene (snd (update s u st))"
  shows "\<exists>s'. runLoop ns s = Some s' \<and> u_fps s' = None \<and> noPreviousScene (stage s') \<and>
           (\<forall>tick. \<exists>drawn.
              trace (render tick (callUpdate (s'\<lparr> trace := trace s' @ [RequestAnimationFrame] \<rparr>)))
                = trace s' @ [RequestAnimationFrame, Update, Render drawn] \<and>
              liveTree drawn =
                liveTree (stage (callUpdate (s'\<lparr> trace := trace s' @ [RequestAnimationFrame] \<rparr>))))"
proof -
  from runLoop_uncapped_invariant [OF assms, of ns]
  obtain s' where r: "runLoop ns s = Some s'" and c: "config s' = config s"
    and p: "noPreviousScene (stage s')"
    by blast
  let ?u = "callUpdate (s'\<lparr> trace := trace s' @ [RequestAnimationFrame] \<rparr>)"
  have f: "u_fps s' = None"
    using config_fields(5) [OF c] assms(1) by (simp only:)
  have "stage ?u = snd (update s (user s') (stage s'))"
    using config_fields(2) [OF c] by (simp add: callUpdate_eq)
  with p assms(3) have pu: "noPreviousScene (stage ?u)"
    by simp
  have tr: "trace ?u = trace s' @ [RequestAnimationFrame, Update]"
    by (simp add: callUpdate_eq)
  have "\<exists>drawn. trace (render tick ?u) = trace s' @ [RequestAnimationFrame, Update, Render drawn] \<and>
          liveTree drawn = liveTree (stage ?u)" for tick
  proof (cases "interpolate ?u")
    case True
    then have "trace (render tick ?u) =
        trace ?u @ [Render (interpolatePass (properties ?u) tick (stage ?u))]"
      by (simp add: render_eq)
    then have "trace (render tick ?u) = trace s' @
        [RequestAnimationFrame, Update, Render (interpolatePass (properties ?u) tick (stage ?u))]"
      by (simp only: tr append_assoc append.simps)
    moreover have "liveTree (interpolatePass (properties ?u) tick (stage ?u)) = liveTree (stage ?u)"
      using pu by (rule liveTree_interpolatePass_noPrevious)
    ultimately show ?thesis by blast
  next
    case False
    then have "trace (render tick ?u) = trace ?u @ [Render (stage ?u)]"
      by (simp add: render_eq)
    then have "trace (render tick ?u) =
        trace s' @ [RequestAnimationFrame, Update, Render (stage ?u)]"
      by (simp only: tr append_assoc append.simps)
    then show ?thesis by blast
  qed
  with r f p show ?thesis by blast
qed

text \<open>
  The demo scheduler without a logic rate, on a fresh ball: after three invocations
  the ball has no previous position, and a render at fraction 0.5 draws it where it is.
\<close>

theorem no_logic_rate_no_blend_witness:
  "\<exists>s'. runLoop [(0, 0), (16, 16), (33, 33)] (demo None None (stageWith freshBall)) = Some s' \<and>
     u_fps s' = None \<and> noPreviousScene (stage s') \<and>
     (\<exists>drawn.
        trace (render (1 / 2) (callUpdate (s'\<lparr> trace := trace s' @ [RequestAnimationFrame] \<rparr>)))
          = trace s' @ [RequestAnimationFrame, Update, Render drawn] \<and>
        liveTree drawn =
          liveTree (stage (callUpdate (s'\<lparr> trace := trace s' @ [RequestAnimationFrame] \<rparr>))))"
proof -
  have "u_fps (demo None None (stageWith freshBall)) = None"
    by (simp add: demo_def)
  moreover have "noPreviousScene (stage (demo None None (stageWith freshBall)))"
    by (simp add: demo_def stageWith_def noPreviousScene_def noPrevious_own_def freshBall_def)
  moreover have "\<forall>u st. noPreviousScene st \<longrightarrow>
      noPreviousScene (snd (update (demo None None (stageWith freshBall)) u st))"
    by (simp add: demo_def moveRight_noPrevious)
  ultimately show ?thesis
    using no_logic_rate_no_blend [of "demo None None (stageWith freshBall)"
        "[(0, 0), (16, 16), (33, 33)]"]
    by blast
qed

section \<open>The render-rate cap\<close>

lemma gameLoop_capped_skip:
  assumes "\<not> paused s" and "u_fps s = Some f"
    and "u_renderFps s = Some rf" and "u_renderDuration s = Some rd"
    and "t < u_renderStartTime s"
  shows "gameLoop t now s = Some (s\<lparr> trace := trace s @ [RequestAnimationFrame] \<rparr>)"
  using assms by (simp add: gameLoop_def Let_def)

lemma gameLoop_capped_drain:
  fixes s :: "'u smoothie"
  assumes "\<not> paused s" and "u_fps s = Some f" and "u_frameDuration s = Some fd" and "0 < fd"
    and "u_renderFps s = Some rf" and "u_renderDuration s = Some rd"
    and "u_renderStartTime s \<le> t"
  shows "\<exists>s'. gameLoop t now s = Some s' \<and> config s' = config s \<and>
           renderCalls (trace s') = Suc (renderCalls (trace s)) \<and>
           u_startTime s' = now \<and> u_renderStartTime s' = t + rd"
proof -
  let ?r = "s\<lparr> trace := trace s @ [RequestAnimationFrame] \<rparr>"
  have fd: "u_frameDuration ?r = Some fd" using assms(3) by simp
  from doInterpolate_result [OF fd assms(4), of now]
  obtain s1 where run: "doInterpolate now ?r = Some s1" and c1: "config s1 = config ?r"
    and r1: "renderCalls (trace s1) = Suc (renderCalls (trace ?r))"
    and st1: "u_startTime s1 = now"
    by blast
  have g: "gameLoop t now s = Some (s1\<lparr> u_renderStartTime := t + rd \<rparr>)"
    using assms(1,2,5,6,7) run by (simp add: gameLoop_def Let_def)
  have "config (s1\<lparr> u_renderStartTime := t + rd \<rparr>) = config s"
    using c1 by (simp add: config_def)
  moreover have "renderCalls (trace (s1\<lparr> u_renderStartTime := t + rd \<rparr>)) = Suc (renderCalls (trace s))"
    using r1 by (simp add: renderCalls_def)
  moreover have "u_startTime (s1\<lparr> u_renderStartTime := t + rd \<rparr>) = now"
    using st1 by simp
  moreover have "u_renderStartTime (s1\<lparr> u_renderStartTime := t + rd \<rparr>) = t + rd"
    by simp
  ultimately show ?thesis using g by blast
qed

lemma runLoop_snoc:
  "runLoop (ns @ [(t, now)]) s =
     (case runLoop ns s of None \<Rightarrow> None | Some s' \<Rightarrow> gameLoop t now s')"
  by (induction ns arbitrary: s) (auto split: option.splits)

lemma notifications_Suc:
  "notifications t0 period dateNow (Suc n) =
     notifications t0 period dateNow n @ [(t0 + real n * period, dateNow n)]"
  by (simp add: notifications_def)

text \<open>
  Notifications with period \<open>p\<close> against a render duration of \<open>2 * p\<close>: after \<open>n\<close>
  of them the draw call has run for every other one, and the next render time is the
  time of the next notification with an even index.
\<close>

lemma capped_run:
  fixes s :: "'u smoothie"
  assumes np: "\<not> paused s" and f: "u_fps s = Some f"
    and fd: "u_frameDuration s = Some fd" and pos: "0 < fd"
    and rf: "u_renderFps s = Some rf" and rd: "u_renderDuration s = Some (2 * p)"
    and p: "0 < p" and t0: "u_renderStartTime s \<le> t0"
  shows "\<exists>s'. runLoop (notifications t0 p dateNow n) s = Some s' \<and> config s' = config s \<and>
           renderCalls (trace s') = renderCalls (trace s) + (n + 1) div 2 \<and>
           (if n = 0 then u_renderStartTime s' = u_renderStartTime s
            else u_renderStartTime s' = t0 + real (2 * ((n + 1) div 2)) * p)"
proof (induction n)
  case 0
  show ?case by (simp add: notifications_def)
next
  case (Suc n)
  then obtain s1 where r1: "runLoop (notifications t0 p dateNow n) s = Some s1"
    and c1: "config s1 = config s"
    and k1: "renderCalls (trace s1) = renderCalls (trace s) + (n + 1) div 2"
    and n1: "if n = 0 then u_renderStartTime s1 = u_renderStartTime s
             else u_renderStartTime s1 = t0 + real (2 * ((n + 1) div 2)) * p"
    by blast
  let ?t = "t0 + real n * p"
  have step: "runLoop (notifications t0 p dateNow (Suc n)) s = gameLoop ?t (dateNow n) s1"
    by (simp only: notifications_Suc runLoop_snoc r1 option.case)
  have np1: "\<not> paused s1" using config_fields(4) [OF c1] np by simp
  have f1: "u_fps s1 = Some f" using config_fields(5) [OF c1] f by (simp only:)
  have fd1: "u_frameDuration s1 = Some fd" using config_fields(6) [OF c1] fd by (simp only:)
  have rf1: "u_renderFps s1 = Some rf" using config_fields(7) [OF c1] rf by (simp only:)
  have rd1: "u_renderDuration s1 = Some (2 * p)"
    using config_fields(8) [OF c1] rd by (simp only:)
  show ?case
  proof (cases "even n")
    case True
    then obtain m where m: "n = 2 * m" by (elim evenE)
    have due: "u_renderStartTime s1 \<le> ?t"
    proof (cases "n = 0")
      case True
      with n1 t0 show ?thesis by simp
    next
      case False
      with n1 have "u_renderStartTime s1 = t0 + real (2 * ((n + 1) div 2)) * p" by simp
      then show ?thesis by (simp add: m)
    qed
    from gameLoop_capped_drain [OF np1 f1 fd1 pos rf1 rd1 due, of "dateNow n"]
    obtain s' where g: "gameLoop ?t (dateNow n) s1 = Some s'" and c: "config s' = config s1"
      and k: "renderCalls (trace s') = Suc (renderCalls (trace s1))"
      and nx: "u_renderStartTime s' = ?t + 2 * p"
      by blast
    have "runLoop (notifications t0 p dateNow (Suc n)) s = Some s'"
      using step g by (simp only:)
    moreover have "config s' = config s" using c c1 by (simp only:)
    moreover have "renderCalls (trace s') = renderCalls (trace s) + (Suc n + 1) div 2"
      using k k1 by (simp add: m)
    moreover have "u_renderStartTime s' = t0 + real (2 * ((Suc n + 1) div 2)) * p"
      using nx by (simp add: m algebra_simps)
    ultimately show ?thesis by simp
  next
    case False
    then obtain m where m: "n = 2 * m + 1" by (elim oddE)
    from n1 have n1': "u_renderStartTime s1 = t0 + real (2 * ((n + 1) div 2)) * p"
      by (simp add: m)
    have "?t < t0 + real (n + 1) * p" using p by (simp add: algebra_simps)
    also have "\<dots> = u_renderStartTime s1" unfolding n1' by (simp add: m)
    finally have early: "?t < u_renderStartTime s1" .
    let ?s' = "s1\<lparr> trace := trace s1 @ [RequestAnimationFrame] \<rparr>"
    have g: "gameLoop ?t (dateNow n) s1 = Some ?s'"
      using np1 f1 rf1 rd1 early by (rule gameLoop_capped_skip)
    have "runLoop (notifications t0 p dateNow (Suc n)) s = Some ?s'"
      using step g by (simp only:)
    moreover have "config ?s' = config s" using c1 by (simp add: config_def)
    moreover have "renderCalls (trace ?s') = renderCalls (trace s) + (Suc n + 1) div 2"
      using k1 by (simp add: m renderCalls_def)
    moreover have "u_renderStartTime ?s' = t0 + real (2 * ((Suc n + 1) div 2)) * p"
      using n1' by (simp add: m)
    ultimately show ?thesis by simp
  qed
qed

lemma gameLoop_capped_drain_detail:
  fixes s :: "'u smoothie"
  assumes "\<not> paused s" and "u_fps s = Some f" and "u_frameDuration s = Some fd" and "0 < fd"
    and "u_renderFps s = Some rf" and "u_renderDuration s = Some rd"
    and "u_renderStartTime s \<le> t"
  shows "\<exists>s1. doInterpolate now (s\<lparr> trace := trace s @ [RequestAnimationFrame] \<rparr>) = Some s1 \<and>
           gameLoop t now s = Some (s1\<lparr> u_renderStartTime := t + rd \<rparr>) \<and>
           renderCalls (trace s1) = renderCalls (trace s) + 1 \<and>
           u_startTime s1 = now \<and> u_lag s1 < fd \<and>
           (fd \<le> u_lag s + clampElapsed fd (now - u_startTime s) \<longrightarrow>
              updateCalls (trace s) < updateCalls (trace s1))"
proof -
  let ?r = "s\<lparr> trace := trace s @ [RequestAnimationFrame] \<rparr>"
  define L where "L = u_lag s + clampElapsed fd (now - u_startTime s)"
  have fd: "u_frameDuration ?r = Some fd" using assms(3) by simp
  have L': "u_lag ?r + clampElapsed fd (now - u_startTime ?r) = L"
    by (simp add: L_def)
  note doInterpolate_result [OF fd assms(4), of now, unfolded L']
  then obtain s1 where run: "doInterpolate now ?r = Some s1"
    and l1: "u_lag s1 = L - real (nat \<lfloor>L / fd\<rfloor>) * fd"
    and u1: "updateCalls (trace s1) = updateCalls (trace ?r) + nat \<lfloor>L / fd\<rfloor>"
    and r1: "renderCalls (trace s1) = Suc (renderCalls (trace ?r))"
    and st1: "u_startTime s1 = now"
    by blast
  have g: "gameLoop t now s = Some (s1\<lparr> u_renderStartTime := t + rd \<rparr>)"
    using assms(1,2,5,6,7) run by (simp add: gameLoop_def Let_def)
  have r: "renderCalls (trace s1) = renderCalls (trace s) + 1"
    using r1 by (simp add: renderCalls_def)
  have lt: "u_lag s1 < fd"
    unfolding l1 using assms(4) by (rule residue_less)
  have up: "updateCalls (trace s) < updateCalls (trace s1)" if "fd \<le> L"
  proof -
    from that assms(4) have "1 \<le> L / fd" by (simp add: le_divide_eq)
    then have "1 \<le> \<lfloor>L / fd\<rfloor>" by (simp add: le_floor_iff)
    then have "0 < nat \<lfloor>L / fd\<rfloor>" by simp
    with u1 show ?thesis by (simp add: updateCalls_def)
  qed
  from run g r st1 lt up show ?thesis unfolding L_def by blast
qed

lemma gameLoop_capped_step:
  fixes s :: "'u smoothie"
  assumes "\<not> paused s" and "u_fps s = Some f" and "u_frameDuration s = Some fd" and "0 < fd"
    and "u_renderFps s = Some rf" and "u_renderDuration s = Some rd"
  shows "\<exists>s'. gameLoop t now s = Some s' \<and> config s' = config s \<and>
           renderCalls (trace s') = renderCalls (trace s) + capDraws rd (u_renderStartTime s) [(t, now)] \<and>
           u_renderStartTime s' = (if u_renderStartTime s \<le> t then t + rd else u_renderStartTime s)"
proof (cases "u_renderStartTime s \<le> t")
  case True
  from gameLoop_capped_drain [OF assms True, of now] True show ?thesis
    by auto
next
  case False
  then have "t < u_renderStartTime s" by simp
  with assms(1,2,5,6)
  have "gameLoop t now s = Some (s\<lparr> trace := trace s @ [RequestAnimationFrame] \<rparr>)"
    by (rule gameLoop_capped_skip)
  with False show ?thesis
    by (simp add: renderCalls_def config_def)
qed

text \<open>A run under the cap draws as often as the cap test says.\<close>

lemma runLoop_capDraws:
  fixes s :: "'u smoothie"
  assumes "\<not> paused s" and "u_fps s = Some f" and "u_frameDuration s = Some fd" and "0 < fd"
    and "u_renderFps s = Some rf" and "u_renderDuration s = Some rd"
  shows "\<exists>s'. runLoop ns s = Some s' \<and>
           renderCalls (trace s') = renderCalls (trace s) + capDraws rd (u_renderStartTime s) ns"
  using assms
proof (induction ns arbitrary: s)
  case Nil
  then show ?case by simp
next
  case (Cons n ns)
  obtain t now where n: "n = (t, now)" by (cases n)
  from gameLoop_capped_step [OF Cons.prems, of t now]
  obtain s1 where g: "gameLoop t now s = Some s1" and c1: "config s1 = config s"
    and k1: "renderCalls (trace s1) =
               renderCalls (trace s) + capDraws rd (u_renderStartTime s) [(t, now)]"
    and n1: "u_renderStartTime s1 =
               (if u_renderStartTime s \<le> t then t + rd else u_renderStartTime s)"
    by blast
  have np1: "\<not> paused s1" using config_fields(4) [OF c1] Cons.prems(1) by simp
  have f1: "u_fps s1 = Some f" using config_fields(5) [OF c1] Cons.prems(2) by (simp only:)
  have fd1: "u_frameDuration s1 = Some fd"
    using config_fields(6) [OF c1] Cons.prems(3) by (simp only:)
  have rf1: "u_renderFps s1 = Some rf"
    using config_fields(7) [OF c1] Cons.prems(5) by (simp only:)
  have rd1: "u_renderDuration s1 = Some rd"
    using config_fields(8) [OF c1] Cons.prems(6) by (simp only:)
  from Cons.IH [OF np1 f1 fd1 Cons.prems(4) rf1 rd1]
  obtain s' where r: "runLoop ns s1 = Some s'"
    and k: "renderCalls (trace s') =
              renderCalls (trace s1) + capDraws rd (u_renderStartTime s1) ns"
    by blast
  have "runLoop (n # ns) s = Some s'"
    using g r by (simp add: n)
  moreover have "renderCalls (trace s') =
      renderCalls (trace s) + capDraws rd (u_renderStartTime s) (n # ns)"
    using k k1 n1 by (simp add: n)
  ultimately show ?case by blast
qed

text \<open>
  Claim C6, as the code has it. Let the scheduler be not paused, with a logic rate (of
  positive frame duration) and a render rate configured. A scheduled invocation whose
  timestamp has reached the next-render time performs the drain-and-render (it calls
  the update callback at least once when lag and elapsed time reach a frame duration,
  leaves a lag below the frame duration and draws once) and then sets the next-render
  time to its timestamp plus the render duration. Any other invocation only registers
  for the next frame. On which notifications the drain-and-render runs then depends on
  the timestamps: when they are whole milliseconds on a grid of half the render
  duration (notifications every 20 ms against a cap of 25 per second) and start not
  before the next-render time, the first \<open>n\<close> of them draw \<open>(n + 1) div 2\<close> times,
  whatever \<open>n\<close>, which is every other notification.
\<close>

theorem render_cap:
  fixes s :: "'u smoothie"
  assumes "\<not> paused s" and "u_fps s = Some f" and "u_frameDuration s = Some fd" and "0 < fd"
    and "u_renderFps s = Some rf" and "u_renderDuration s = Some rd"
  shows "(if u_renderStartTime s \<le> t
          then \<exists>s'. gameLoop t now s = Some s' \<and>
                 renderCalls (trace s') = renderCalls (trace s) + 1 \<and>
                 u_startTime s' = now \<and> u_renderStartTime s' = t + rd \<and>
                 u_lag s' < fd \<and>
                 (fd \<le> u_lag s + clampElapsed fd (now - u_startTime s) \<longrightarrow>
                    updateCalls (trace s) < updateCalls (trace s'))
          else gameLoop t now s = Some (s\<lparr> trace := trace s @ [RequestAnimationFrame] \<rparr>)) \<and>
         (rd = 2 * p \<and> 0 < p \<and> p \<in> \<int> \<and> t0 \<in> \<int> \<and> 0 \<le> t0 \<and>
          u_renderStartTime s \<le> t0 \<and> t0 + real (n + 2) * p \<le> 2 ^ 53 \<longrightarrow>
            (\<exists>s'. runLoop (notifications t0 p dateNow n) s = Some s' \<and>
                  renderCalls (trace s') = renderCalls (trace s) + (n + 1) div 2))"
proof (intro conjI impI)
  show "if u_renderStartTime s \<le> t
          then \<exists>s'. gameLoop t now s = Some s' \<and>
                 renderCalls (trace s') = renderCalls (trace s) + 1 \<and>
                 u_startTime s' = now \<and> u_renderStartTime s' = t + rd \<and>
                 u_lag s' < fd \<and>
                 (fd \<le> u_lag s + clampElapsed fd (now - u_startTime s) \<longrightarrow>
                    updateCalls (trace s) < updateCalls (trace s'))
          else gameLoop t now s = Some (s\<lparr> trace := trace s @ [RequestAnimationFrame] \<rparr>)"
  proof (cases "u_renderStartTime s \<le> t")
    case True
    from gameLoop_capped_drain_detail [OF assms True, of now]
    obtain s1 where g: "gameLoop t now s = Some (s1\<lparr> u_renderStartTime := t + rd \<rparr>)"
      and r: "renderCalls (trace s1) = renderCalls (trace s) + 1"
      and st: "u_startTime s1 = now" and l: "u_lag s1 < fd"
      and u: "fd \<le> u_lag s + clampElapsed fd (now - u_startTime s) \<longrightarrow>
                updateCalls (trace s) < updateCalls (trace s1)"
      by blast
    let ?s' = "s1\<lparr> u_renderStartTime := t + rd \<rparr>"
    have "renderCalls (trace ?s') = renderCalls (trace s) + 1"
      and "u_startTime ?s' = now" and "u_renderStartTime ?s' = t + rd" and "u_lag ?s' < fd"
      and "fd \<le> u_lag s + clampElapsed fd (now - u_startTime s) \<longrightarrow>
             updateCalls (trace s) < updateCalls (trace ?s')"
      using r st l u by simp_all
    with g have "\<exists>s'. gameLoop t now s = Some s' \<and>
                 renderCalls (trace s') = renderCalls (trace s) + 1 \<and>
                 u_startTime s' = now \<and> u_renderStartTime s' = t + rd \<and>
                 u_lag s' < fd \<and>
                 (fd \<le> u_lag s + clampElapsed fd (now - u_startTime s) \<longrightarrow>
                    updateCalls (trace s) < updateCalls (trace s'))"
      by blast
    with True show ?thesis by (simp only: if_True)
  next
    case False
    then have "t < u_renderStartTime s" by simp
    with assms(1,2,5,6)
    have "gameLoop t now s = Some (s\<lparr> trace := trace s @ [RequestAnimationFrame] \<rparr>)"
      by (rule gameLoop_capped_skip)
    with False show ?thesis by (simp only: if_False)
  qed
next
  assume a: "rd = 2 * p \<and> 0 < p \<and> p \<in> \<int> \<and> t0 \<in> \<int> \<and> 0 \<le> t0 \<and>
          u_renderStartTime s \<le> t0 \<and> t0 + real (n + 2) * p \<le> 2 ^ 53"
  with assms(6) have rd: "u_renderDuration s = Some (2 * p)" by simp
  from a have p: "0 < p" and t0: "u_renderStartTime s \<le> t0" by simp_all
  from capped_run [OF assms(1-5) rd p t0, of dateNow n]
  show "\<exists>s'. runLoop (notifications t0 p dateNow n) s = Some s' \<and>
              renderCalls (trace s') = renderCalls (trace s) + (n + 1) div 2"
    by blast
qed

text \<open>
  A cap of 25 renders per second (40 ms), a logic rate of 50 per second, notifications
  every 20 ms: the first draws, and of the first six, three do.
\<close>

theorem render_cap_witness:
  "(\<exists>s'. gameLoop 0 0 (demo (Some 50) (Some 25) (stageWith freshBall)) = Some s' \<and>
         renderCalls (trace s') = 1 \<and> u_renderStartTime s' = 40 \<and> u_lag s' < 20) \<and>
   (\<exists>s'. runLoop (notifications 0 20 real 6)
            (demo (Some 50) (Some 25) (stageWith freshBall)) = Some s' \<and>
         renderCalls (trace s') = 3)"
proof -
  let ?D = "demo (Some 50) (Some 25) (stageWith freshBall)"
  have h: "\<not> paused ?D" "u_fps ?D = Some 50" "u_frameDuration ?D = Some 20"
    "(0 :: real) < 20" "u_renderFps ?D = Some 25" "u_renderDuration ?D = Some 40"
    by (simp_all add: demo_def duration_of_def)
  have i: "u_renderStartTime ?D = 0" "renderCalls (trace ?D) = 0"
    by (simp_all add: demo_def renderCalls_def)
  note w = render_cap [OF h, of 0 0 20 0 6 real]
  from w [THEN conjunct1] have "\<exists>s'. gameLoop 0 0 ?D = Some s' \<and>
         renderCalls (trace s') = 1 \<and> u_renderStartTime s' = 40 \<and> u_lag s' < 20"
    by (auto simp add: i)
  moreover from w [THEN conjunct2] have "\<exists>s'. runLoop (notifications 0 20 real 6) ?D = Some s' \<and>
         renderCalls (trace s') = 3"
    by (simp add: i)
  ultimately show ?thesis by blast
qed

text \<open>
  With a cap of 30 renders per second and notifications at 60 per second the
  drain-and-render need not run on every other notification. For the timestamps 0,
  16.666, 33.333, 50, 66.666, 83.333 and 100 ms the third notification comes before the
  next-render time 33.333... that the first one set, so the first three notifications
  draw once, and the seven draw three times.
\<close>

theorem render_cap_counterexample:
  "u_renderDuration (demo (Some 60) (Some 30) (stageWith freshBall)) = Some (1000 / 30) \<and>
   map_option (renderCalls \<circ> trace)
     (runLoop [(0, 0), (16666 / 1000, 17), (33333 / 1000, 33)]
        (demo (Some 60) (Some 30) (stageWith freshBall))) = Some 1 \<and>
   map_option (renderCalls \<circ> trace)
     (runLoop [(0, 0), (16666 / 1000, 17), (33333 / 1000, 33), (50, 50),
               (66666 / 1000, 67), (83333 / 1000, 83), (100, 100)]
        (demo (Some 60) (Some 30) (stageWith freshBall))) = Some 3"
proof -
  let ?D = "demo (Some 60) (Some 30) (stageWith freshBall)"
  have h: "\<not> paused ?D" "u_fps ?D = Some 60" "u_frameDuration ?D = Some (1000 / 60)"
    "(0 :: real) < 1000 / 60" "u_renderFps ?D = Some 30" "u_renderDuration ?D = Some (1000 / 30)"
    by (simp_all add: demo_def duration_of_def)
  have i: "u_renderStartTime ?D = 0" "renderCalls (trace ?D) = 0"
    by (simp_all add: demo_def renderCalls_def)
  from runLoop_capDraws [OF h, of "[(0, 0), (16666 / 1000, 17), (33333 / 1000, 33)]"]
  have "map_option (renderCalls \<circ> trace)
     (runLoop [(0, 0), (16666 / 1000, 17), (33333 / 1000, 33)] ?D) = Some 1"
    by (auto simp add: i)
  moreover
  from runLoop_capDraws [OF h, of "[(0, 0), (16666 / 1000, 17), (33333 / 1000, 33), (50, 50),
               (66666 / 1000, 67), (83333 / 1000, 83), (100, 100)]"]
  have "map_option (renderCalls \<circ> trace)
     (runLoop [(0, 0), (16666 / 1000, 17), (33333 / 1000, 33), (50, 50),
               (66666 / 1000, 67), (83333 / 1000, 83), (100, 100)] ?D) = Some 3"
    by (auto simp add: i)
  ultimately show ?thesis using h(6) by blast
qed

end
